theory Spec2Isabelle
  imports Main "HOL-Library.AList" "HOL-Library.Multiset"
begin

section \<open>The attendance engine of server.js\<close>

text \<open>
  A shallow embedding of the attendance engine of \<^verbatim>\<open>src/server.js\<close>: the duration
  utilities, the \<^verbatim>\<open>POST /voice-event\<close> handler, \<^verbatim>\<open>calculateVCStats\<close> with the
  three leaderboard routes, and the aggregation of \<^verbatim>\<open>GET /export/xlsx/:type\<close>.

  Conventions of the embedding.
  \<^item> A timestamp is the number of milliseconds since the epoch, an \<open>int\<close>. The source
    keeps the ISO string of \<^verbatim>\<open>new Date().toISOString()\<close> and reads it back with
    \<^verbatim>\<open>new Date(s)\<close>; the string has millisecond precision, so the round trip is exact.
    The clock itself is outside the program: every handler takes the instant it reads
    from the clock as an argument.
  \<^item> A field of a request body is \<open>string option\<close>, \<open>None\<close> for a field that is
    missing (\<^verbatim>\<open>undefined\<close> after destructuring).
  \<^item> \<open>active\<close> and \<open>stats\<close> of the attendance object, and the totals the
    leaderboards accumulate, are plain JavaScript objects: a map or an association list
    holds their own properties, and every read and write goes through the prototype
    chain as the source's does. A read of a key that is not an own property finds the
    members of \<^verbatim>\<open>Object.prototype\<close>; a write to the key \<^verbatim>\<open>__proto__\<close> calls its setter.
  \<^item> Numbers are integers. \<^verbatim>\<open>Math.floor(x / 1000)\<close> is floor division, which is what
    the floating point computation gives as long as \<open>x\<close> stays below \<open>2 ^ 52\<close> in
    magnitude, far above any difference of two readings of the clock.
  \<^item> The states are those the handler builds: a session holds a valid timestamp, an
    entry of \<open>stats\<close> is a number, \<^verbatim>\<open>NaN\<close> or a string the handler itself can store.
  \<^item> Persistence (\<^verbatim>\<open>saveData\<close>) and the socket broadcast do not change the
    attendance object and are left out.
\<close>

subsection \<open>Duration utilities\<close>

text \<open>\<^verbatim>\<open>getSecondsDiff(startTime, endTime)\<close>, line 44.\<close>

definition getSecondsDiff :: "int \<Rightarrow> int \<Rightarrow> int" where
  "getSecondsDiff startTime endTime = (endTime - startTime) div 1000"

text \<open>
  The remainder operator \<^verbatim>\<open>%\<close> of JavaScript truncates towards zero: the result has the
  sign of the dividend.
\<close>

definition js_rem :: "int \<Rightarrow> int \<Rightarrow> int" where
  "js_rem a b = sgn a * (\<bar>a\<bar> mod \<bar>b\<bar>)"

text \<open>\<^verbatim>\<open>Number.prototype.toString()\<close> on an integer: decimal digits, a minus sign first.\<close>

fun nat_digits :: "nat \<Rightarrow> string" where
  "nat_digits n =
     (if n < 10 then [char_of (48 + n)]
      else nat_digits (n div 10) @ [char_of (48 + n mod 10)])"

declare nat_digits.simps [simp del]

definition number_toString :: "int \<Rightarrow> string" where
  "number_toString n =
     (if n < 0 then CHR ''-'' # nat_digits (nat (- n)) else nat_digits (nat n))"

text \<open>\<^verbatim>\<open>s.padStart(targetLength, c)\<close> for a pad string of one character.\<close>

definition padStart :: "nat \<Rightarrow> char \<Rightarrow> string \<Rightarrow> string" where
  "padStart targetLength c s = replicate (targetLength - length s) c @ s"

text \<open>
  \<^verbatim>\<open>formatDuration(sec)\<close>, line 48; \<open>two_digits x\<close> is
  \<^verbatim>\<open>x.toString().padStart(2, "0")\<close>, which the template applies to each field.
\<close>

definition two_digits :: "int \<Rightarrow> string" where
  "two_digits x = padStart 2 (CHR ''0'') (number_toString x)"

definition formatDuration :: "int \<Rightarrow> string" where
  "formatDuration sec =
     (let h = sec div 3600;
          m = js_rem sec 3600 div 60;
          s = js_rem sec 60
      in two_digits h @ '':'' @ two_digits m @ '':'' @ two_digits s)"

text \<open>Reading a string of decimal digits back, to say what a rendered field denotes.\<close>

definition is_digit :: "char \<Rightarrow> bool" where
  "is_digit c = (48 \<le> (of_char c :: nat) \<and> (of_char c :: nat) \<le> 57)"

definition dec_value :: "string \<Rightarrow> int" where
  "dec_value s = foldl (\<lambda>acc c. 10 * acc + (int (of_char c) - 48)) 0 s"

subsection \<open>The attendance state\<close>

record body =
  btype :: "string option"
  buser :: "string option"
  bchannel :: "string option"

record event =
  etype :: "string option"
  euser :: "string option"
  echannel :: "string option"
  etime :: int

record session =
  channel :: "string option"
  joinedAt :: int

text \<open>
  The values a property of \<open>stats\<close> or of the totals can hold: a number, \<^verbatim>\<open>NaN\<close>, or a
  string. The only strings that arise are the source text of a built-in function (the
  function an inherited key names) followed by the digits or the \<^verbatim>\<open>NaN\<close> appended to
  it; \<open>FunStr name suffix\<close> is that string. A duration is \<open>int option\<close>, \<open>None\<close> for
  \<^verbatim>\<open>NaN\<close>.
\<close>

datatype jsval = Num int | NaN | FunStr string string

text \<open>
  The members of \<^verbatim>\<open>Object.prototype\<close> that every plain object inherits: eleven
  functions and the accessor \<^verbatim>\<open>__proto__\<close>.
\<close>

definition prototype_functions :: "string list" where
  "prototype_functions =
     [''constructor'', ''__defineGetter__'', ''__defineSetter__'', ''hasOwnProperty'',
      ''__lookupGetter__'', ''__lookupSetter__'', ''isPrototypeOf'', ''propertyIsEnumerable'',
      ''toString'', ''valueOf'', ''toLocaleString'']"

definition object_prototype :: "string list" where
  "object_prototype = ''__proto__'' # prototype_functions"

text \<open>
  The string a built-in function converts to; \<^verbatim>\<open>Object.prototype.constructor\<close> is the
  function \<^verbatim>\<open>Object\<close>, the others are named like their key.
\<close>

definition function_text :: "string \<Rightarrow> string" where
  "function_text name =
     ''function '' @ (if name = ''constructor'' then ''Object'' else name) @
     ''() { [native code] }''"

definition num_text :: "int option \<Rightarrow> string" where
  "num_text d = (case d of None \<Rightarrow> ''NaN'' | Some n \<Rightarrow> number_toString n)"

fun to_text :: "jsval \<Rightarrow> string" where
  "to_text (Num n) = number_toString n"
| "to_text NaN = ''NaN''"
| "to_text (FunStr name suffix) = function_text name @ suffix"

text \<open>\<^verbatim>\<open>!v\<close>: the number 0 and \<^verbatim>\<open>NaN\<close> are falsy, a string that is not empty is truthy.\<close>

fun falsy :: "jsval \<Rightarrow> bool" where
  "falsy (Num n) = (n = 0)"
| "falsy NaN = True"
| "falsy (FunStr name suffix) = False"

text \<open>\<^verbatim>\<open>v + d\<close> for a duration \<open>d\<close>: addition of numbers, concatenation onto a string.\<close>

fun js_add :: "jsval \<Rightarrow> int option \<Rightarrow> jsval" where
  "js_add (Num a) (Some b) = Num (a + b)"
| "js_add (Num a) None = NaN"
| "js_add NaN d = NaN"
| "js_add (FunStr name suffix) d = FunStr name (suffix @ num_text d)"

text \<open>
  The value \<^verbatim>\<open>o[k]\<close> holds after \<^verbatim>\<open>if (!o[k]) o[k] = 0\<close> when \<open>k\<close> is an own property
  or names nothing: a missing entry and a falsy one both leave 0 there.
\<close>

definition or_zero :: "jsval option \<Rightarrow> jsval" where
  "or_zero v = (case v of None \<Rightarrow> Num 0 | Some x \<Rightarrow> if falsy x then Num 0 else x)"

text \<open>
  \<^verbatim>\<open>if (!o[k]) o[k] = 0; o[k] += d\<close> on a plain object \<open>o\<close> whose own property \<open>k\<close> is
  \<open>own\<close>, lines 66 to 67, 94 to 95 and 153 to 154: the value the own property \<open>k\<close> has
  afterwards, \<open>None\<close> when none is written.
  \<^item> An own property is read and written as it is.
  \<^item> Without own property, \<^verbatim>\<open>o.__proto__\<close> reads the prototype, an object and truthy;
    the sum is a string, which the setter of \<^verbatim>\<open>__proto__\<close> ignores.
  \<^item> Without own property, a key that names an inherited function reads that function,
    truthy; the sum is its source text with the duration appended, stored as a new own
    property.
  \<^item> Any other key reads \<^verbatim>\<open>undefined\<close>, is set to 0 and then added to.
\<close>

definition add_assign :: "string \<Rightarrow> jsval option \<Rightarrow> int option \<Rightarrow> jsval option" where
  "add_assign k own d =
     (case own of
        Some v \<Rightarrow> Some (js_add (or_zero (Some v)) d)
      | None \<Rightarrow>
          if k = ''__proto__'' then None
          else if k \<in> set prototype_functions then Some (FunStr k (num_text d))
          else Some (js_add (or_zero None) d))"

text \<open>
  The attendance object. \<open>active_proto\<close> is the prototype of \<^verbatim>\<open>attendance.active\<close>
  when it is no longer \<^verbatim>\<open>Object.prototype\<close>: the assignment
  \<^verbatim>\<open>attendance.active["__proto__"] = { channel, joinedAt }\<close> of line 61 makes the session
  object the prototype of \<^verbatim>\<open>active\<close> and creates no property. The prototype of
  \<^verbatim>\<open>stats\<close> never changes, since only strings are ever assigned to its \<^verbatim>\<open>__proto__\<close>.
\<close>

record attendance =
  history :: "event list"
  active :: "string \<rightharpoonup> session"
  active_proto :: "session option"
  stats :: "string \<rightharpoonup> jsval"

text \<open>\<^verbatim>\<open>let attendance = { history: [], active: {}, stats: {} }\<close>, line 27.\<close>

definition empty_attendance :: attendance where
  "empty_attendance =
     \<lparr>history = [], active = Map.empty, active_proto = None, stats = Map.empty\<rparr>"

text \<open>
  A value used as a property key is converted to a string: \<^verbatim>\<open>obj[undefined]\<close> is the
  property named \<^verbatim>\<open>"undefined"\<close>.
\<close>

definition prop_key :: "string option \<Rightarrow> string" where
  "prop_key u = (case u of None \<Rightarrow> ''undefined'' | Some s \<Rightarrow> s)"

text \<open>
  What \<^verbatim>\<open>attendance.active[user]\<close> can evaluate to: a session object, a channel name or
  the timestamp string of the session object that is the prototype, an inherited
  function, or \<^verbatim>\<open>Object.prototype\<close> itself.
\<close>

datatype aval =
  ASession session | AString string | ATimestamp int | AFunction string | AObjectPrototype

text \<open>
  \<^verbatim>\<open>attendance.active[user]\<close>, \<open>None\<close> for \<^verbatim>\<open>undefined\<close>: the own property, else the
  property of the session object that is the prototype, else the member of
  \<^verbatim>\<open>Object.prototype\<close>. The getter of \<^verbatim>\<open>__proto__\<close> returns the prototype.
\<close>

definition active_get :: "attendance \<Rightarrow> string \<Rightarrow> aval option" where
  "active_get att k =
     (case active att k of
        Some sess \<Rightarrow> Some (ASession sess)
      | None \<Rightarrow>
          (case active_proto att of
             Some p \<Rightarrow>
               if k = ''channel'' then map_option AString (channel p)
               else if k = ''joinedAt'' then Some (ATimestamp (joinedAt p))
               else if k = ''__proto__'' then Some (ASession p)
               else if k \<in> set prototype_functions then Some (AFunction k)
               else None
           | None \<Rightarrow>
               if k = ''__proto__'' then Some AObjectPrototype
               else if k \<in> set prototype_functions then Some (AFunction k)
               else None))"

text \<open>Objects, functions and strings that are not empty are truthy.\<close>

fun truthy :: "aval \<Rightarrow> bool" where
  "truthy (AString s) = (s \<noteq> [])"
| "truthy v = True"

text \<open>
  \<^verbatim>\<open>attendance.active[user].joinedAt\<close>: the field of a session object, \<^verbatim>\<open>undefined\<close>
  (\<open>None\<close>) on a string, a function and \<^verbatim>\<open>Object.prototype\<close>.
\<close>

fun joinedAt_of :: "aval \<Rightarrow> int option" where
  "joinedAt_of (ASession sess) = Some (joinedAt sess)"
| "joinedAt_of v = None"

text \<open>
  \<^verbatim>\<open>attendance.active[user] = sess\<close>, line 61: the setter of \<^verbatim>\<open>__proto__\<close> when the key
  is \<^verbatim>\<open>__proto__\<close> and no own property has that name, an own property otherwise.
\<close>

definition active_set :: "attendance \<Rightarrow> string \<Rightarrow> session \<Rightarrow> attendance" where
  "active_set att k sess =
     (if k = ''__proto__'' \<and> active att k = None then att\<lparr>active_proto := Some sess\<rparr>
      else att\<lparr>active := (active att)(k \<mapsto> sess)\<rparr>)"

text \<open>Lines 66 to 67 on \<^verbatim>\<open>attendance.stats\<close>.\<close>

definition stats_credit :: "attendance \<Rightarrow> string \<Rightarrow> int option \<Rightarrow> attendance" where
  "stats_credit att k d =
     (case add_assign k (stats att k) d of
        None \<Rightarrow> att
      | Some v \<Rightarrow> att\<lparr>stats := (stats att)(k \<mapsto> v)\<rparr>)"

text \<open>The event pushed on the history, line 72.\<close>

definition new_event :: "int \<Rightarrow> body \<Rightarrow> event" where
  "new_event timestamp b =
     \<lparr>etype = btype b, euser = buser b, echannel = bchannel b, etime = timestamp\<rparr>"

text \<open>
  \<^verbatim>\<open>app.post("/voice-event")\<close>, lines 56 to 78. The handler has one exit,
  \<^verbatim>\<open>res.sendStatus(200)\<close>; the result is that status and the attendance object after
  the request. \<^verbatim>\<open>getSecondsDiff(undefined, timestamp)\<close> is \<^verbatim>\<open>NaN\<close>.
\<close>

definition voice_event :: "int \<Rightarrow> body \<Rightarrow> attendance \<Rightarrow> nat \<times> attendance" where
  "voice_event timestamp b att =
     (let user = prop_key (buser b);
          att1 =
            (if btype b = Some ''join'' then
               active_set att user \<lparr>channel = bchannel b, joinedAt = timestamp\<rparr>
             else if btype b = Some ''leave'' then
               (let att2 =
                  (case active_get att user of
                     Some v \<Rightarrow>
                       if truthy v then
                         (let duration =
                            map_option (\<lambda>j. getSecondsDiff j timestamp) (joinedAt_of v)
                          in stats_credit att user duration)
                       else att
                   | None \<Rightarrow> att)
                in att2\<lparr>active := (active att2)(user := None)\<rparr>)
             else att);
          unshifted = new_event timestamp b # history att1;
          popped = (if length unshifted > 100 then butlast unshifted else unshifted)
      in (200, att1\<lparr>history := popped\<rparr>))"

text \<open>
  The server handles one request after the other; \<open>replay\<close> feeds a sequence of
  requests, each with the instant the clock showed, through the handler.
\<close>

fun replay :: "(int \<times> body) list \<Rightarrow> attendance \<Rightarrow> attendance" where
  "replay [] att = att"
| "replay ((timestamp, b) # evs) att = replay evs (snd (voice_event timestamp b att))"

subsection \<open>Leaderboards\<close>

text \<open>
  \<^verbatim>\<open>formatDuration\<close> applied to a total. A number is rendered as above. On \<^verbatim>\<open>NaN\<close>,
  and on a string that is no numeric literal (the source text of a function starts with
  a letter), every quotient and remainder is \<^verbatim>\<open>NaN\<close> and each field reads \<^verbatim>\<open>NaN\<close>.
\<close>

definition formatDuration_of :: "jsval \<Rightarrow> string" where
  "formatDuration_of sec =
     (case sec of
        Num n \<Rightarrow> formatDuration n
      | _ \<Rightarrow> ''NaN'' @ '':'' @ ''NaN'' @ '':'' @ ''NaN'')"

text \<open>
  The totals \<^verbatim>\<open>const stats = {}\<close> of \<^verbatim>\<open>calculateVCStats\<close> are an association list
  of the own properties in the order they were created, since \<^verbatim>\<open>Object.entries\<close>
  depends on it. \<^verbatim>\<open>if (!stats[k]) stats[k] = 0; stats[k] += seconds\<close> creates the
  property at the end when it is missing and updates it in place otherwise; for the key
  \<^verbatim>\<open>__proto__\<close> nothing is written.
\<close>

definition stats_add :: "(string \<times> jsval) list \<Rightarrow> string \<Rightarrow> int \<Rightarrow> (string \<times> jsval) list" where
  "stats_add st k seconds =
     (case add_assign k (map_of st k) (Some seconds) of
        None \<Rightarrow> st
      | Some v \<Rightarrow> AList.update k v st)"

text \<open>
  \<^verbatim>\<open>history.find(j => j.user === h.user && j.type === "join" &&
  new Date(j.time) <= new Date(h.time))\<close>, lines 89 and 148: the first such entry in
  array order.
\<close>

definition find_join :: "event list \<Rightarrow> event \<Rightarrow> event option" where
  "find_join hist h =
     find (\<lambda>j. euser j = euser h \<and> etype j = Some ''join'' \<and> etime j \<le> etime h) hist"

text \<open>
  The loop of \<^verbatim>\<open>calculateVCStats(history, filterFn)\<close>, lines 87 to 97: \<open>hist\<close> is the
  array searched for the join, \<open>hs\<close> what is left to iterate over, \<open>filterFn\<close> is
  \<open>None\<close> when the argument is omitted.
\<close>

fun vc_loop ::
  "event list \<Rightarrow> (event \<Rightarrow> bool) option \<Rightarrow> event list \<Rightarrow> (string \<times> jsval) list \<Rightarrow> (string \<times> jsval) list"
where
  "vc_loop hist filterFn [] st = st"
| "vc_loop hist filterFn (h # hs) st =
     (if etype h = Some ''leave'' \<and> (case filterFn of None \<Rightarrow> True | Some f \<Rightarrow> f h) then
        (case find_join hist h of
           None \<Rightarrow> vc_loop hist filterFn hs st
         | Some j \<Rightarrow>
             vc_loop hist filterFn hs
               (stats_add st (prop_key (euser h)) (getSecondsDiff (etime j) (etime h))))
      else vc_loop hist filterFn hs st)"

text \<open>
  \<^verbatim>\<open>Object.entries\<close> lists the own properties whose key is an array index (the canonical
  decimal string of an integer from 0 to \<open>2 ^ 32 - 2\<close>) first, in ascending numeric order,
  and the other string keys after them in the order of their creation.
\<close>

definition is_array_index :: "string \<Rightarrow> bool" where
  "is_array_index s =
     (s \<noteq> [] \<and> list_all is_digit s \<and> (s = ''0'' \<or> hd s \<noteq> CHR ''0'') \<and>
      dec_value s < 4294967295)"

definition object_entries :: "(string \<times> 'a) list \<Rightarrow> (string \<times> 'a) list" where
  "object_entries kvs =
     sort_key (\<lambda>kv. dec_value (fst kv)) (filter (\<lambda>kv. is_array_index (fst kv)) kvs) @
     filter (\<lambda>kv. \<not> is_array_index (fst kv)) kvs"

text \<open>
  \<^verbatim>\<open>a.localeCompare(b)\<close> on the strings \<^verbatim>\<open>formatDuration\<close> produces, which consist of
  digits, colons and minus signs, or are \<^verbatim>\<open>NaN:NaN:NaN\<close>. The host's collation
  compares them character by character with the minus sign before the colon, the colon
  before every digit, the digits in their numeric order and letters after the digits
  (the root collation of the Unicode CLDR, which orders punctuation before digits and
  digits before letters); on these strings equal weights mean equal strings. Characters
  other than the minus sign, the colon and the digits are given their code point after
  the digits. The facts proved below that depend on an order at all compare strings that
  first differ at two digits.
\<close>

definition collation_weight :: "char \<Rightarrow> nat" where
  "collation_weight c =
     (if c = CHR ''-'' then 0
      else if c = CHR '':'' then 1
      else if is_digit c then of_char c - 46
      else 12 + of_char c)"

fun localeCompare :: "string \<Rightarrow> string \<Rightarrow> int" where
  "localeCompare [] [] = 0"
| "localeCompare [] (y # ys) = - 1"
| "localeCompare (x # xs) [] = 1"
| "localeCompare (x # xs) (y # ys) =
     (if collation_weight x < collation_weight y then - 1
      else if collation_weight y < collation_weight x then 1
      else localeCompare xs ys)"

text \<open>
  \<^verbatim>\<open>Array.prototype.sort(comparefn)\<close> is stable: elements that compare equal keep their
  order. With a comparator that is a total preorder every stable sort gives the same
  array; it is written here as insertion from the right.
\<close>

fun sort_insert :: "('a \<Rightarrow> 'a \<Rightarrow> int) \<Rightarrow> 'a \<Rightarrow> 'a list \<Rightarrow> 'a list" where
  "sort_insert comparefn x [] = [x]"
| "sort_insert comparefn x (y # ys) =
     (if comparefn x y \<le> 0 then x # y # ys else y # sort_insert comparefn x ys)"

fun array_sort :: "('a \<Rightarrow> 'a \<Rightarrow> int) \<Rightarrow> 'a list \<Rightarrow> 'a list" where
  "array_sort comparefn [] = []"
| "array_sort comparefn (x # xs) = sort_insert comparefn x (array_sort comparefn xs)"

text \<open>
  A leaderboard row \<^verbatim>\<open>{ user, time }\<close> is a pair. The last two steps of
  \<^verbatim>\<open>calculateVCStats\<close>, lines 98 to 100: format every total, sort descending by the
  formatted string.
\<close>

type_synonym row = "string \<times> string"

definition format_rows :: "(string \<times> jsval) list \<Rightarrow> row list" where
  "format_rows st = map (\<lambda>(user, time). (user, formatDuration_of time)) (object_entries st)"

definition rank_rows :: "row list \<Rightarrow> row list" where
  "rank_rows rows = array_sort (\<lambda>a b. localeCompare (snd b) (snd a)) rows"

definition calculateVCStats :: "event list \<Rightarrow> (event \<Rightarrow> bool) option \<Rightarrow> row list" where
  "calculateVCStats hist filterFn = rank_rows (format_rows (vc_loop hist filterFn hist []))"

text \<open>
  The three routes, lines 103 to 118. \<open>today\<close> is \<^verbatim>\<open>startOfDay(new Date())\<close> and
  \<open>weekStart\<close> is \<^verbatim>\<open>startOfWeek(new Date(), { weekStartsOn: 1 })\<close>, computed by date-fns
  from the clock and the local time zone.
\<close>

definition leaderboard_daily :: "int \<Rightarrow> event list \<Rightarrow> row list" where
  "leaderboard_daily today hist = calculateVCStats hist (Some (\<lambda>h. today \<le> etime h))"

definition leaderboard_weekly :: "int \<Rightarrow> event list \<Rightarrow> row list" where
  "leaderboard_weekly weekStart hist = calculateVCStats hist (Some (\<lambda>h. weekStart \<le> etime h))"

definition leaderboard_all :: "event list \<Rightarrow> row list" where
  "leaderboard_all hist = calculateVCStats hist None"

subsection \<open>The export\<close>

text \<open>
  \<^verbatim>\<open>app.get("/export/xlsx/:type")\<close>, lines 121 to 160, up to the rows added to the
  sheet; writing the workbook is the library's. The route has its own copy of the loop,
  run over the filtered history.
\<close>

definition filteredHistory :: "int \<Rightarrow> int \<Rightarrow> string \<Rightarrow> event list \<Rightarrow> event list" where
  "filteredHistory today weekStart type hist =
     (if type = ''daily'' then filter (\<lambda>h. today \<le> etime h) hist
      else if type = ''weekly'' then filter (\<lambda>h. weekStart \<le> etime h) hist
      else hist)"

fun export_loop :: "event list \<Rightarrow> event list \<Rightarrow> (string \<times> jsval) list \<Rightarrow> (string \<times> jsval) list" where
  "export_loop filtered [] st = st"
| "export_loop filtered (h # hs) st =
     (if etype h = Some ''leave'' then
        (case find_join filtered h of
           None \<Rightarrow> export_loop filtered hs st
         | Some j \<Rightarrow>
             export_loop filtered hs
               (stats_add st (prop_key (euser h)) (getSecondsDiff (etime j) (etime h))))
      else export_loop filtered hs st)"

record sheet =
  headers :: "string list"
  rows :: "row list"

definition export_xlsx :: "int \<Rightarrow> int \<Rightarrow> string \<Rightarrow> event list \<Rightarrow> sheet" where
  "export_xlsx today weekStart type hist =
     (let filtered = filteredHistory today weekStart type hist;
          st = export_loop filtered filtered []
      in \<lparr>headers = [''User'', ''VC Time''],
          rows = map (\<lambda>(user, seconds). (user, formatDuration_of seconds)) (object_entries st)\<rparr>)"

subsection \<open>Notions used to state the properties\<close>

text \<open>
  The most recent request of a sequence that carries the user key \<open>k\<close>; the sequence is
  in the order of processing.
\<close>

fun last_event_for :: "string \<Rightarrow> (int \<times> body) list \<Rightarrow> body option" where
  "last_event_for k [] = None"
| "last_event_for k ((t, b) # evs) =
     (case last_event_for k evs of
        Some b' \<Rightarrow> Some b'
      | None \<Rightarrow> if prop_key (buser b) = k then Some b else None)"

text \<open>
  The number \<^verbatim>\<open>stats[user]\<close> stands for: 0 when the user has no entry, none when the
  entry is not a number.
\<close>

definition stat_number :: "jsval option \<Rightarrow> int option" where
  "stat_number v = (case v of None \<Rightarrow> Some 0 | Some (Num n) \<Rightarrow> Some n | Some _ \<Rightarrow> None)"

text \<open>
  What a total under the key \<open>k\<close> can be: a number that is not negative, or, for a key
  that names an inherited function, the string that starts with the text of that function.
\<close>

definition total_ok :: "string \<Rightarrow> jsval \<Rightarrow> bool" where
  "total_ok k v =
     (case v of
        Num n \<Rightarrow> 0 \<le> n
      | NaN \<Rightarrow> False
      | FunStr name suffix \<Rightarrow> name = k \<and> k \<in> set prototype_functions)"

text \<open>Test data: an entry of the history.\<close>

definition old_event :: event where
  "old_event = \<lparr>etype = Some ''join'', euser = Some ''Alice'', echannel = Some ''VC'', etime = 0\<rparr>"

text \<open>Test data: the requests the bot sends for a user, lines 209 and 214.\<close>

definition join_of :: "string \<Rightarrow> body" where
  "join_of u = \<lparr>btype = Some ''join'', buser = Some u, bchannel = Some ''VC''\<rparr>"

definition leave_of :: "string \<Rightarrow> body" where
  "leave_of u = \<lparr>btype = Some ''leave'', buser = Some u, bchannel = Some ''VC''\<rparr>"

text \<open>
  Test data: the four requests of the example scenario in the order of processing, with
  their instants in milliseconds, and entries of a history.
\<close>

definition scenario :: "(int \<times> body) list" where
  "scenario =
     [(0, join_of ''Alice''), (300000, leave_of ''Alice''),
      (60000, join_of ''Bob''), (120000, leave_of ''Bob'')]"

definition join_at :: "string option \<Rightarrow> int \<Rightarrow> event" where
  "join_at u t = \<lparr>etype = Some ''join'', euser = u, echannel = Some ''VC'', etime = t\<rparr>"

definition leave_at :: "string option \<Rightarrow> int \<Rightarrow> event" where
  "leave_at u t = \<lparr>etype = Some ''leave'', euser = u, echannel = Some ''VC'', etime = t\<rparr>"

section \<open>Properties\<close>

subsection \<open>Digits and fields\<close>

lemma dec_value_snoc: "dec_value (s @ [c]) = 10 * dec_value s + (int (of_char c) - 48)"
  by (simp add: dec_value_def)

lemma is_digit_char_of: "k < 10 \<Longrightarrow> is_digit (char_of (48 + k :: nat))"
  by (simp add: is_digit_def)

lemma nat_digits_digits: "list_all is_digit (nat_digits n)"
proof (induction n rule: nat_digits.induct)
  case (1 n)
  show ?case
  proof (cases "n < 10")
    case True
    then show ?thesis by (subst nat_digits.simps) (simp add: is_digit_char_of)
  next
    case False
    have "n mod 10 < 10" by simp
    with False 1 show ?thesis
      by (subst nat_digits.simps) (simp add: is_digit_char_of)
  qed
qed

lemma nat_digits_value: "dec_value (nat_digits n) = int n"
proof (induction n rule: nat_digits.induct)
  case (1 n)
  show ?case
  proof (cases "n < 10")
    case True
    then show ?thesis by (subst nat_digits.simps) (simp add: dec_value_def)
  next
    case False
    have m: "n mod 10 < 10" by simp
    have e: "10 * int (n div 10) + int (n mod 10) = int n"
      by (simp add: zdiv_int zmod_int)
    from False 1 m e show ?thesis
      by (subst nat_digits.simps) (simp add: dec_value_snoc)
  qed
qed

lemma nat_digits_length_small: "n < 10 \<Longrightarrow> length (nat_digits n) = 1"
  by (subst nat_digits.simps) simp

lemma nat_digits_nonempty: "nat_digits n \<noteq> []"
  by (subst nat_digits.simps) simp

lemma nat_digits_length_two: "10 \<le> n \<Longrightarrow> n < 100 \<Longrightarrow> length (nat_digits n) = 2"
  by (subst nat_digits.simps) (simp add: nat_digits_length_small)

lemma nat_digits_length_ge: "10 \<le> n \<Longrightarrow> 2 \<le> length (nat_digits n)"
  using nat_digits_nonempty[of "n div 10"]
  by (subst nat_digits.simps) (cases "nat_digits (n div 10)"; simp)

lemma nat_digits_length_hundred: "100 \<le> n \<Longrightarrow> 3 \<le> length (nat_digits n)"
  using nat_digits_length_ge[of "n div 10"]
  by (subst nat_digits.simps) simp

lemma two_digits_small: "0 \<le> x \<Longrightarrow> x < 10 \<Longrightarrow> two_digits x = CHR ''0'' # nat_digits (nat x)"
  by (simp add: two_digits_def padStart_def number_toString_def nat_digits_length_small)

lemma two_digits_large: "10 \<le> x \<Longrightarrow> two_digits x = nat_digits (nat x)"
  using nat_digits_length_ge[of "nat x"]
  by (simp add: two_digits_def padStart_def number_toString_def)

lemma two_digits_digits: "0 \<le> x \<Longrightarrow> list_all is_digit (two_digits x)"
  by (cases "x < 10") (simp_all add: two_digits_small two_digits_large nat_digits_digits is_digit_def)

lemma two_digits_value: "0 \<le> x \<Longrightarrow> dec_value (two_digits x) = x"
proof (cases "x < 10")
  case True
  assume "0 \<le> x"
  have "dec_value (CHR ''0'' # s) = dec_value s" for s
    by (simp add: dec_value_def)
  with True \<open>0 \<le> x\<close> show ?thesis
    by (simp add: two_digits_small nat_digits_value)
next
  case False
  then show ?thesis by (simp add: two_digits_large nat_digits_value)
qed

lemma two_digits_length: "0 \<le> x \<Longrightarrow> 2 \<le> length (two_digits x)"
  using nat_digits_length_ge[of "nat x"]
  by (cases "x < 10") (simp_all add: two_digits_small two_digits_large nat_digits_length_small)

lemma two_digits_length_two: "0 \<le> x \<Longrightarrow> x < 100 \<Longrightarrow> length (two_digits x) = 2"
  using nat_digits_length_two[of "nat x"]
  by (cases "x < 10") (simp_all add: two_digits_small two_digits_large nat_digits_length_small)

lemma two_digits_uncapped: "100 \<le> x \<Longrightarrow> 3 \<le> length (two_digits x)"
  using nat_digits_length_hundred[of "nat x"]
  by (simp add: two_digits_large)

lemma js_rem_nonneg: "0 \<le> a \<Longrightarrow> 0 < b \<Longrightarrow> js_rem a b = a mod b"
  by (simp add: js_rem_def sgn_if)

lemma formatDuration_nonneg:
  "0 \<le> sec \<Longrightarrow>
   formatDuration sec =
     two_digits (sec div 3600) @ '':'' @ two_digits (sec div 60 mod 60) @ '':'' @ two_digits (sec mod 60)"
proof -
  assume s: "0 \<le> sec"
  have "sec mod 3600 = 60 * (sec div 60 mod 60) + sec mod 60"
    using zmod_zmult2_eq[of 60 sec 60] by simp
  then have "sec mod 3600 div 60 = sec div 60 mod 60"
    by simp
  with s show ?thesis
    by (simp add: formatDuration_def js_rem_nonneg)
qed

subsection \<open>The event processor\<close>

lemma active_set_fields [simp]:
  "history (active_set att k sess) = history att"
  "stats (active_set att k sess) = stats att"
  "active (active_set att k sess) =
     (if k = ''__proto__'' \<and> active att k = None then active att else (active att)(k \<mapsto> sess))"
  "active_proto (active_set att k sess) =
     (if k = ''__proto__'' \<and> active att k = None then Some sess else active_proto att)"
  by (auto simp: active_set_def)

lemma stats_credit_fields [simp]:
  "history (stats_credit att k d) = history att"
  "active (stats_credit att k d) = active att"
  "active_proto (stats_credit att k d) = active_proto att"
  "stats (stats_credit att k d) =
     (case add_assign k (stats att k) d of None \<Rightarrow> stats att | Some v \<Rightarrow> (stats att)(k \<mapsto> v))"
  by (simp_all add: stats_credit_def split: option.splits)

lemma voice_event_status: "fst (voice_event t b att) = 200"
  by (simp add: voice_event_def Let_def)

lemma voice_event_history:
  "history (snd (voice_event t b att)) =
     (if 100 \<le> length (history att) then new_event t b # butlast (history att)
      else new_event t b # history att)"
  by (cases "history att") (auto simp: voice_event_def Let_def split: option.splits)

lemma voice_event_active:
  "active (snd (voice_event t b att)) =
     (if btype b = Some ''join'' then
        (if prop_key (buser b) = ''__proto__'' \<and> active att ''__proto__'' = None then active att
         else (active att)(prop_key (buser b) \<mapsto> \<lparr>channel = bchannel b, joinedAt = t\<rparr>))
      else if btype b = Some ''leave'' then (active att)(prop_key (buser b) := None)
      else active att)"
  by (auto simp: voice_event_def Let_def split: option.splits)

lemma voice_event_proto:
  "active_proto (snd (voice_event t b att)) =
     (if btype b = Some ''join'' \<and> prop_key (buser b) = ''__proto__'' \<and>
         active att ''__proto__'' = None
      then Some \<lparr>channel = bchannel b, joinedAt = t\<rparr>
      else active_proto att)"
  by (auto simp: voice_event_def Let_def split: option.splits)

lemma voice_event_stats:
  "stats (snd (voice_event t b att)) =
     (if btype b = Some ''leave'' then
        (case active_get att (prop_key (buser b)) of
           Some v \<Rightarrow>
             if truthy v then
               stats (stats_credit att (prop_key (buser b))
                 (map_option (\<lambda>j. getSecondsDiff j t) (joinedAt_of v)))
             else stats att
         | None \<Rightarrow> stats att)
      else stats att)"
  by (simp add: voice_event_def Let_def split: option.splits)

lemma active_get_own: "active att k = Some sess \<Longrightarrow> active_get att k = Some (ASession sess)"
  by (simp add: active_get_def)

lemma active_get_plain:
  "k \<notin> set object_prototype \<Longrightarrow> active_proto att = None \<Longrightarrow>
   active_get att k = map_option ASession (active att k)"
  by (simp add: active_get_def object_prototype_def split: option.splits)

lemma add_assign_plain:
  "k \<notin> set object_prototype \<Longrightarrow> add_assign k own d = Some (js_add (or_zero own) d)"
  by (simp add: add_assign_def object_prototype_def split: option.splits)

lemma voice_event_stats_own:
  assumes "btype b = Some ''leave''" "active att (prop_key (buser b)) = Some sess"
    and "prop_key (buser b) \<notin> set object_prototype"
  shows "stats (snd (voice_event t b att)) =
           (stats att)(prop_key (buser b) \<mapsto>
             js_add (or_zero (stats att (prop_key (buser b))))
               (Some (getSecondsDiff (joinedAt sess) t)))"
  using assms by (simp add: voice_event_stats active_get_own add_assign_plain)

lemma voice_event_stats_plain:
  assumes "prop_key (buser b) \<notin> set object_prototype" "active_proto att = None"
  shows "stats (snd (voice_event t b att)) =
     (if btype b = Some ''leave'' then
        (case active att (prop_key (buser b)) of
           Some sess \<Rightarrow>
             (stats att)(prop_key (buser b) \<mapsto>
               js_add (or_zero (stats att (prop_key (buser b))))
                 (Some (getSecondsDiff (joinedAt sess) t)))
         | None \<Rightarrow> stats att)
      else stats att)"
  using assms
  by (simp add: voice_event_stats active_get_plain add_assign_plain split: option.splits)

lemma voice_event_stats_other:
  "k \<noteq> prop_key (buser b) \<Longrightarrow> stats (snd (voice_event t b att)) k = stats att k"
  by (simp add: voice_event_stats split: option.splits)

lemma replay_append: "replay (xs @ ys) att = replay ys (replay xs att)"
  by (induction xs arbitrary: att) auto

lemma replay_history_bounded:
  "length (history att) \<le> 100 \<Longrightarrow> length (history (replay evs att)) \<le> 100"
proof (induction evs arbitrary: att)
  case Nil
  then show ?case by simp
next
  case (Cons e evs)
  obtain t b where e: "e = (t, b)" by (cases e)
  have "length (history (snd (voice_event t b att))) \<le> 100"
    using Cons.prems by (simp add: voice_event_history)
  from Cons.IH[OF this] show ?case by (simp add: e)
qed

lemma replay_active_last:
  assumes "\<forall>(t, b) \<in> set evs. (btype b = Some ''join'' \<or> btype b = Some ''leave'') \<and>
             prop_key (buser b) \<noteq> ''__proto__''"
  shows "(active (replay evs att) k \<noteq> None) =
           (case last_event_for k evs of
              None \<Rightarrow> active att k \<noteq> None
            | Some b \<Rightarrow> btype b = Some ''join'')"
  using assms
proof (induction evs arbitrary: att)
  case Nil
  then show ?case by simp
next
  case (Cons e evs)
  obtain t b where e: "e = (t, b)" by (cases e)
  have rest: "\<forall>(t, b) \<in> set evs. (btype b = Some ''join'' \<or> btype b = Some ''leave'') \<and>
             prop_key (buser b) \<noteq> ''__proto__''"
    using Cons.prems by simp
  have jl: "btype b = Some ''join'' \<or> btype b = Some ''leave''"
    and np: "prop_key (buser b) \<noteq> ''__proto__''"
    using Cons.prems e by simp_all
  show ?case
    using Cons.IH[OF rest, of "snd (voice_event t b att)"] jl np
    by (auto simp: e voice_event_active split: option.splits)
qed

lemma replay_other_events:
  assumes "\<forall>(t, b) \<in> set mid. prop_key (buser b) = k \<longrightarrow>
             btype b \<noteq> Some ''join'' \<and> btype b \<noteq> Some ''leave''"
  shows "active (replay mid att) k = active att k \<and> stats (replay mid att) k = stats att k"
  using assms
proof (induction mid arbitrary: att)
  case Nil
  then show ?case by simp
next
  case (Cons e mid)
  obtain t b where e: "e = (t, b)" by (cases e)
  have rest: "\<forall>(t, b) \<in> set mid. prop_key (buser b) = k \<longrightarrow>
             btype b \<noteq> Some ''join'' \<and> btype b \<noteq> Some ''leave''"
    using Cons.prems by simp
  have here: "prop_key (buser b) = k \<longrightarrow> btype b \<noteq> Some ''join'' \<and> btype b \<noteq> Some ''leave''"
    using Cons.prems e by simp
  have a: "active (snd (voice_event t b att)) k = active att k"
    using here by (auto simp: voice_event_active)
  have s: "stats (snd (voice_event t b att)) k = stats att k"
  proof (cases "prop_key (buser b) = k")
    case True
    with here show ?thesis by (simp add: voice_event_stats)
  next
    case False
    then show ?thesis by (simp add: voice_event_stats_other)
  qed
  from a s Cons.IH[OF rest, of "snd (voice_event t b att)"] show ?case
    by (simp add: e)
qed

lemma take_append_take: "take n (xs @ take n ys) = take n (xs @ ys)"
  by (simp add: min_def)

lemma voice_event_history_take:
  "history (snd (voice_event t b att)) =
     take (max 100 (length (history att))) (new_event t b # history att)"
  by (cases "history att" rule: rev_cases) (auto simp: voice_event_history max_def)

lemma replay_history:
  "history (replay evs att) =
     take (max 100 (length (history att)))
       (rev (map (\<lambda>(t, b). new_event t b) evs) @ history att)"
proof (induction evs arbitrary: att)
  case Nil
  then show ?case by simp
next
  case (Cons e evs)
  obtain t b where e: "e = (t, b)" by (cases e)
  let ?att = "snd (voice_event t b att)"
  have n: "max 100 (length (history ?att)) = max 100 (length (history att))"
    by (auto simp: voice_event_history)
  have "history (replay (e # evs) att) =
        take (max 100 (length (history att)))
          (rev (map (\<lambda>(t, b). new_event t b) evs) @ history ?att)"
    using Cons.IH[of ?att] by (simp add: e n)
  also have "history ?att = take (max 100 (length (history att))) (new_event t b # history att)"
    by (rule voice_event_history_take)
  finally show ?case
    by (simp only: take_append_take) (simp add: e)
qed

lemma take_past_two:
  assumes "length xs + 2 \<le> n"
  shows "take n (x # xs @ y # ys) = x # xs @ y # take (n - (length xs + 2)) ys"
proof -
  from assms obtain m where "n = length xs + 2 + m"
    using le_Suc_ex by blast
  then show ?thesis by simp
qed

lemma stat_number_credit:
  assumes "stat_number v = Some m"
  shows "stat_number (Some (js_add (or_zero v) (Some d))) = Some (m + d)"
proof (cases v)
  case None
  with assms show ?thesis by (simp add: stat_number_def or_zero_def)
next
  case (Some x)
  with assms show ?thesis
    by (cases x) (auto simp: stat_number_def or_zero_def)
qed

lemma voice_event_stats_grow:
  assumes "prop_key (buser b) \<notin> set object_prototype" "active_proto att = None"
    and "\<forall>sess. active att (prop_key (buser b)) = Some sess \<longrightarrow> joinedAt sess \<le> t"
    and "stat_number (stats att k) = Some m"
  shows "\<exists>n. stat_number (stats (snd (voice_event t b att)) k) = Some n \<and> m \<le> n"
proof (cases "btype b = Some ''leave'' \<and> k = prop_key (buser b) \<and>
    active att (prop_key (buser b)) \<noteq> None")
  case False
  then have "stats (snd (voice_event t b att)) k = stats att k"
    using assms(1,2) by (auto simp: voice_event_stats_plain split: option.splits)
  with assms(4) show ?thesis by simp
next
  case True
  then obtain sess where sess: "active att (prop_key (buser b)) = Some sess" by auto
  with assms(3) have "joinedAt sess \<le> t" by simp
  then have d: "0 \<le> getSecondsDiff (joinedAt sess) t"
    by (simp add: getSecondsDiff_def pos_imp_zdiv_nonneg_iff)
  from True sess assms(1,2)
  have "stats (snd (voice_event t b att)) k =
      Some (js_add (or_zero (stats att k)) (Some (getSecondsDiff (joinedAt sess) t)))"
    by (simp add: voice_event_stats_plain)
  with stat_number_credit[OF assms(4)] d show ?thesis by simp
qed

lemma replay_stats_grow:
  assumes "sorted (map fst evs)"
    and "\<forall>k sess. active att k = Some sess \<longrightarrow> (\<forall>t \<in> set (map fst evs). joinedAt sess \<le> t)"
    and "\<forall>(t, b) \<in> set evs. prop_key (buser b) \<notin> set object_prototype"
    and "active_proto att = None"
    and "stat_number (stats att k) = Some m"
  shows "\<exists>n. stat_number (stats (replay evs att) k) = Some n \<and> m \<le> n"
  using assms
proof (induction evs arbitrary: att m)
  case Nil
  then show ?case by simp
next
  case (Cons e evs)
  obtain t b where e: "e = (t, b)" by (cases e)
  let ?att = "snd (voice_event t b att)"
  have later: "\<forall>t' \<in> set (map fst evs). t \<le> t'" and srt: "sorted (map fst evs)"
    using Cons.prems(1) by (simp_all add: e)
  have key: "prop_key (buser b) \<notin> set object_prototype"
    and keys: "\<forall>(t, b) \<in> set evs. prop_key (buser b) \<notin> set object_prototype"
    using Cons.prems(3) by (simp_all add: e)
  have "\<forall>sess. active att (prop_key (buser b)) = Some sess \<longrightarrow> joinedAt sess \<le> t"
    using Cons.prems(2) by (simp add: e)
  from voice_event_stats_grow[OF key Cons.prems(4) this Cons.prems(5)]
  obtain n where n: "stat_number (stats ?att k) = Some n" "m \<le> n" by blast
  have inv: "\<forall>k sess. active ?att k = Some sess \<longrightarrow> (\<forall>t \<in> set (map fst evs). joinedAt sess \<le> t)"
    using Cons.prems(2) later by (auto simp: e voice_event_active split: if_splits)
  have proto: "active_proto ?att = None"
    using key Cons.prems(4) by (auto simp: voice_event_proto object_prototype_def)
  from Cons.IH[OF srt inv keys proto n(1)] n(2) show ?case
    by (auto simp: e)
qed

lemma replay_sessions_origin:
  "active (replay evs att) k = Some sess \<Longrightarrow>
   active att k = Some sess \<or> joinedAt sess \<in> set (map fst evs)"
proof (induction evs arbitrary: att)
  case Nil
  then show ?case by simp
next
  case (Cons e evs)
  obtain t b where e: "e = (t, b)" by (cases e)
  from Cons.prems have "active (replay evs (snd (voice_event t b att))) k = Some sess"
    by (simp add: e)
  from Cons.IH[OF this] show ?case
    by (auto simp: e voice_event_active split: if_splits)
qed

lemma replay_proto_plain:
  "\<forall>(t, b) \<in> set evs. prop_key (buser b) \<notin> set object_prototype \<Longrightarrow>
   active_proto att = None \<Longrightarrow> active_proto (replay evs att) = None"
proof (induction evs arbitrary: att)
  case Nil
  then show ?case by simp
next
  case (Cons e evs)
  obtain t b where e: "e = (t, b)" by (cases e)
  have "active_proto (snd (voice_event t b att)) = None"
    using Cons.prems by (auto simp: e voice_event_proto object_prototype_def)
  with Cons.IH[of "snd (voice_event t b att)"] Cons.prems(1) show ?case
    by (simp add: e)
qed

subsection \<open>The aggregation loops\<close>

text \<open>
  The number totals both loops accumulate are never negative: a leave is only paired with
  a join whose time is not after its own.
\<close>

lemma export_loop_vc_loop: "export_loop filtered hs st = vc_loop filtered None hs st"
  by (induction hs arbitrary: st) (auto split: option.splits)

lemma update_ok:
  "\<forall>(k, v) \<in> set al. total_ok k v \<Longrightarrow> total_ok k0 v0 \<Longrightarrow>
   \<forall>(k, v) \<in> set (AList.update k0 v0 al). total_ok k v"
  by (induction al) auto

lemma find_join_before: "find_join hist h = Some j \<Longrightarrow> etime j \<le> etime h"
  by (induction hist) (auto simp: find_join_def split: if_splits)

lemma add_assign_ok:
  assumes "\<forall>v. own = Some v \<longrightarrow> total_ok k v" and "0 \<le> n" and "add_assign k own (Some n) = Some w"
  shows "total_ok k w"
proof (cases own)
  case None
  with assms(2,3) show ?thesis
    by (auto simp: add_assign_def or_zero_def total_ok_def split: if_splits)
next
  case (Some v)
  with assms(1) have "total_ok k v" by simp
  with Some assms(2,3) show ?thesis
    by (cases v) (auto simp: add_assign_def or_zero_def total_ok_def split: if_splits)
qed

lemma stats_add_ok:
  assumes "\<forall>(k, v) \<in> set st. total_ok k v" and "0 \<le> n"
  shows "\<forall>(k, v) \<in> set (stats_add st k n). total_ok k v"
proof (cases "add_assign k (map_of st k) (Some n)")
  case None
  with assms(1) show ?thesis by (simp add: stats_add_def)
next
  case (Some w)
  have "\<forall>v. map_of st k = Some v \<longrightarrow> total_ok k v"
    using assms(1) by (auto dest: map_of_SomeD)
  from add_assign_ok[OF this assms(2) Some] have "total_ok k w" .
  from update_ok[OF assms(1) this] Some show ?thesis by (simp add: stats_add_def)
qed

lemma vc_loop_ok:
  "\<forall>(k, v) \<in> set st. total_ok k v \<Longrightarrow> \<forall>(k, v) \<in> set (vc_loop hist filterFn hs st). total_ok k v"
proof (induction hs arbitrary: st)
  case Nil
  then show ?case by simp
next
  case (Cons h hs)
  show ?case
  proof (cases "find_join hist h")
    case None
    with Cons show ?thesis by simp
  next
    case (Some j)
    from find_join_before[OF Some] have "0 \<le> getSecondsDiff (etime j) (etime h)"
      by (simp add: getSecondsDiff_def pos_imp_zdiv_nonneg_iff)
    from stats_add_ok[OF Cons.prems this]
    have "\<forall>(k, v) \<in> set (stats_add st (prop_key (euser h)) (getSecondsDiff (etime j) (etime h))).
        total_ok k v" .
    from Cons.IH[OF this] Cons.IH[OF Cons.prems] Some show ?thesis by simp
  qed
qed

lemma totals_ok:
  "(\<forall>(k, v) \<in> set (vc_loop hist filterFn hist []). total_ok k v) \<and>
   (\<forall>(k, v) \<in> set (export_loop hist hist []). total_ok k v)"
  using vc_loop_ok[of "[]" hist filterFn hist] vc_loop_ok[of "[]" hist None hist]
  by (simp add: export_loop_vc_loop)

lemma object_entries_single: "object_entries [kv] = [kv]"
  by (simp add: object_entries_def)

lemma object_entries_nil: "object_entries [] = []"
  by (simp add: object_entries_def)

lemma find_first:
  "\<forall>x \<in> set xs. \<not> P x \<Longrightarrow> P y \<Longrightarrow> find P (xs @ y # ys) = Some y"
  by (induction xs) auto

lemma find_join_first:
  assumes "etype l \<noteq> Some ''join''"
    and "\<forall>x \<in> set ms. \<not> (euser x = euser l \<and> etype x = Some ''join'' \<and> etime x \<le> etime l)"
    and "euser j = euser l" "etype j = Some ''join''" "etime j \<le> etime l"
  shows "find_join (l # ms @ j # rest) l = Some j"
  using assms(1) find_first[OF assms(2), of j rest] assms(3-5)
  by (simp add: find_join_def)

lemma stats_add_first: "k \<notin> set object_prototype \<Longrightarrow> stats_add [] k d = [(k, Num d)]"
  by (simp add: stats_add_def add_assign_plain or_zero_def)

lemma vc_loop_first_leave:
  assumes "hist = l # rest" "etype l = Some ''leave''" "find_join hist l = Some j"
    and "prop_key (euser l) \<notin> set object_prototype"
  shows "vc_loop hist None hist [] =
           vc_loop hist None (tl hist)
             [(prop_key (euser l), Num (getSecondsDiff (etime j) (etime l)))]"
proof -
  have "vc_loop hist None (l # rest) [] =
        vc_loop hist None rest [(prop_key (euser l), Num (getSecondsDiff (etime j) (etime l)))]"
    using assms(2,3) by (simp add: stats_add_first[OF assms(4)])
  then show ?thesis by (simp add: assms(1))
qed

lemma vc_loop_all_skip:
  "\<forall>e \<in> set hs. etype e = Some ''leave'' \<longrightarrow> find_join hist e = None \<Longrightarrow>
   vc_loop hist filterFn hs st = st"
  by (induction hs arbitrary: st) (auto split: option.splits)

lemma leaderboard_single_total:
  "rank_rows (format_rows [(k, Num n)]) = [(k, formatDuration n)]"
  by (simp add: rank_rows_def format_rows_def object_entries_single formatDuration_of_def)

lemma find_join_remove:
  "etype h \<noteq> Some ''join'' \<Longrightarrow> find_join (xs @ h # ys) e = find_join (xs @ ys) e"
  by (induction xs) (auto simp: find_join_def)

lemma vc_loop_skip:
  "etype h \<noteq> Some ''leave'' \<or> find_join hist h = None \<Longrightarrow>
   vc_loop hist filterFn (xs @ h # ys) st = vc_loop hist filterFn (xs @ ys) st"
  by (induction xs arbitrary: st) (auto split: option.splits)

lemma vc_loop_cong_find:
  "(\<And>e. find_join hist e = find_join hist' e) \<Longrightarrow>
   vc_loop hist filterFn hs st = vc_loop hist' filterFn hs st"
  by (induction hs arbitrary: st) (auto split: option.splits)

lemma find_join_None:
  "find_join hist h = None \<longleftrightarrow>
   (\<forall>j \<in> set hist. \<not> (euser j = euser h \<and> etype j = Some ''join'' \<and> etime j \<le> etime h))"
  by (auto simp: find_join_def find_None_iff)

lemma vc_loop_filter:
  "vc_loop hist (Some p) hs st = vc_loop hist None (filter p hs) st"
  by (induction hs arbitrary: st) (auto split: option.splits)

lemma stats_add_distinct: "distinct (map fst st) \<Longrightarrow> distinct (map fst (stats_add st k n))"
  by (simp add: stats_add_def distinct_update split: option.splits)

lemma vc_loop_distinct:
  "distinct (map fst st) \<Longrightarrow> distinct (map fst (vc_loop hist filterFn hs st))"
  by (induction hs arbitrary: st) (auto simp: stats_add_distinct split: option.splits)

lemma object_entries_mset: "mset (object_entries kvs) = mset kvs"
  by (simp add: object_entries_def)

lemma object_entries_distinct:
  "distinct (map fst kvs) \<Longrightarrow> distinct (map fst (object_entries kvs))"
proof -
  assume d: "distinct (map fst kvs)"
  have "mset (map fst (object_entries kvs)) = mset (map fst kvs)"
    by (simp add: object_entries_mset)
  from mset_eq_imp_distinct_iff[OF this] d show ?thesis by simp
qed

lemma format_rows_keys: "map fst (format_rows st) = map fst (object_entries st)"
  by (simp add: format_rows_def case_prod_beta)

lemma sort_insert_mset: "mset (sort_insert c x xs) = add_mset x (mset xs)"
  by (induction xs) auto

lemma array_sort_mset: "mset (array_sort c xs) = mset xs"
  by (induction xs) (auto simp: sort_insert_mset)

lemma export_rows_format:
  "rows (export_xlsx today weekStart type hist) =
     format_rows (vc_loop (filteredHistory today weekStart type hist) None
       (filteredHistory today weekStart type hist) [])"
  by (simp add: export_xlsx_def Let_def export_loop_vc_loop format_rows_def)

section \<open>The claims\<close>

text \<open>
  The keys of \<open>active\<close> for every user name but \<^verbatim>\<open>__proto__\<close>: after replaying any
  sequence of join and leave events from the empty state, they are exactly the users
  whose most recent event was a join, and a leave removes the user from \<open>active\<close> in
  every state.
\<close>

lemma active_keys_last_join:
  assumes "\<forall>(t, b) \<in> set evs. (btype b = Some ''join'' \<or> btype b = Some ''leave'') \<and>
             prop_key (buser b) \<noteq> ''__proto__''"
  shows "dom (active (replay evs empty_attendance)) =
           {k. \<exists>b. last_event_for k evs = Some b \<and> btype b = Some ''join''} \<and>
         (\<forall>t b att. btype b = Some ''leave'' \<longrightarrow>
            active (snd (voice_event t b att)) (prop_key (buser b)) = None)"
proof -
  have "(k \<in> dom (active (replay evs empty_attendance))) =
        (\<exists>b. last_event_for k evs = Some b \<and> btype b = Some ''join'')" for k
    using replay_active_last[OF assms, of empty_attendance k]
    by (auto simp: dom_def empty_attendance_def split: option.splits)
  then show ?thesis
    by (auto simp: voice_event_active)
qed

text \<open>
  Claim C1, at the input where the code departs from it. A join of the user named
  \<^verbatim>\<open>__proto__\<close>, processed in the empty state: the most recent event of the user is a
  join, and \<open>active\<close> has no key at all. The assignment of line 61 ran the setter of
  \<^verbatim>\<open>__proto__\<close> and made the session object the prototype of \<open>active\<close>. Also, the read
  of line 63 finds an inherited member for a user such as \<^verbatim>\<open>constructor\<close> who never
  joined.
\<close>

theorem proto_join_not_active:
  "last_event_for ''__proto__'' [(0, join_of ''__proto__'')] = Some (join_of ''__proto__'') \<and>
   btype (join_of ''__proto__'') = Some ''join'' \<and>
   dom (active (replay [(0, join_of ''__proto__'')] empty_attendance)) = {} \<and>
   active_proto (replay [(0, join_of ''__proto__'')] empty_attendance) =
     Some \<lparr>channel = Some ''VC'', joinedAt = 0\<rparr> \<and>
   active_get empty_attendance ''constructor'' = Some (AFunction ''constructor'')"
  by (simp add: join_of_def prop_key_def voice_event_active voice_event_proto
      empty_attendance_def active_get_def prototype_functions_def)

text \<open>
  Claim C2. In a state whose history has at most 100 entries, processing an event puts
  exactly one new entry, the event with the instant of processing, at the front of the
  history; when that makes 101 entries the last (oldest) one is removed and nothing else.
  So the history keeps at most 100 entries, after one event and after any sequence of
  events, and the newest event is at index 0.
\<close>

theorem history_capped:
  assumes "length (history att) \<le> 100"
  shows "(length (history att) < 100 \<longrightarrow>
            history (snd (voice_event t b att)) = new_event t b # history att) \<and>
         (length (history att) = 100 \<longrightarrow>
            history (snd (voice_event t b att)) = new_event t b # butlast (history att)) \<and>
         length (history (snd (voice_event t b att))) \<le> 100 \<and>
         history (snd (voice_event t b att)) ! 0 = new_event t b \<and>
         length (history (replay evs att)) \<le> 100"
  using assms replay_history_bounded[OF assms, of evs]
  by (simp add: voice_event_history)

theorem history_capped_witness:
  "length (history (empty_attendance\<lparr>history := replicate 100 old_event\<rparr>)) \<le> 100 \<and>
   history (snd (voice_event 7 \<lparr>btype = Some ''leave'', buser = Some ''Alice'', bchannel = Some ''VC''\<rparr>
     (empty_attendance\<lparr>history := replicate 100 old_event\<rparr>))) =
   \<lparr>etype = Some ''leave'', euser = Some ''Alice'', echannel = Some ''VC'', etime = 7\<rparr> #
     replicate 99 old_event"
proof -
  have h: "length (history (empty_attendance\<lparr>history := replicate 100 old_event\<rparr>)) \<le> 100"
    by simp
  have "butlast (replicate 100 old_event) = replicate 99 old_event"
    by (simp add: butlast_conv_take)
  with history_capped[OF h, of 7 "\<lparr>btype = Some ''leave'', buser = Some ''Alice'', bchannel = Some ''VC''\<rparr>" "[]"]
  show ?thesis by (simp add: new_event_def)
qed


text \<open>
  Claim C3, amended. For a user whose name is not a member of \<^verbatim>\<open>Object.prototype\<close>: a
  join of the user processed at \<open>t0\<close>, then any requests none of which is a join or a
  leave of that user, then a leave of the user processed at \<open>t1\<close>: \<open>stats\<close> of the user
  grows by exactly \<open>getSecondsDiff t0 t1\<close>, the floor of \<open>(t1 - t0) / 1000\<close>, counted
  from 0 when the user had no entry. When moreover \<open>t0 \<le> t1\<close>, at most 98 requests came
  in between, so that the join is still in the history, and no other session exists, that
  is no other leave of the history has a join of its user at or before its time there,
  the all-time leaderboard is the single row of that user with that duration, formatted.
\<close>

theorem session_credit:
  assumes "\<forall>(t, b) \<in> set mid. prop_key (buser b) = prop_key u \<longrightarrow>
             btype b \<noteq> Some ''join'' \<and> btype b \<noteq> Some ''leave''"
    and "evs = (t0, \<lparr>btype = Some ''join'', buser = u, bchannel = c\<rparr>) # mid @
                   [(t1, \<lparr>btype = Some ''leave'', buser = u, bchannel = c'\<rparr>)]"
    and "prop_key u \<notin> set object_prototype"
  shows "(stats att (prop_key u) = None \<longrightarrow>
            stats (replay evs att) (prop_key u) = Some (Num (getSecondsDiff t0 t1))) \<and>
         (\<forall>n. stats att (prop_key u) = Some (Num n) \<longrightarrow>
            stats (replay evs att) (prop_key u) = Some (Num (n + getSecondsDiff t0 t1))) \<and>
         (t0 \<le> t1 \<and> length mid \<le> 98 \<and>
          (\<forall>e \<in> set (tl (history (replay evs att))).
             etype e = Some ''leave'' \<longrightarrow> find_join (history (replay evs att)) e = None) \<longrightarrow>
            leaderboard_all (history (replay evs att)) =
              [(prop_key u, formatDuration (getSecondsDiff t0 t1))])"
proof -
  let ?j = "\<lparr>btype = Some ''join'', buser = u, bchannel = c\<rparr>"
  let ?l = "\<lparr>btype = Some ''leave'', buser = u, bchannel = c'\<rparr>"
  let ?att1 = "snd (voice_event t0 ?j att)"
  have np: "prop_key u \<noteq> ''__proto__''"
    using assms(3) by (auto simp: object_prototype_def)
  have a1: "active ?att1 (prop_key u) = Some \<lparr>channel = c, joinedAt = t0\<rparr>"
    and s1: "stats ?att1 (prop_key u) = stats att (prop_key u)"
    using np by (simp_all add: voice_event_active voice_event_stats)
  from replay_other_events[OF assms(1), of ?att1] a1 s1
  have mid: "active (replay mid ?att1) (prop_key u) = Some \<lparr>channel = c, joinedAt = t0\<rparr>"
    "stats (replay mid ?att1) (prop_key u) = stats att (prop_key u)"
    by simp_all
  have "stats (snd (voice_event t1 ?l (replay mid ?att1))) =
      (stats (replay mid ?att1))(prop_key u \<mapsto>
         js_add (or_zero (stats (replay mid ?att1) (prop_key u))) (Some (getSecondsDiff t0 t1)))"
    using voice_event_stats_own[of ?l "replay mid ?att1" "\<lparr>channel = c, joinedAt = t0\<rparr>" t1]
      mid(1) assms(3) by simp
  then have first: "stats (replay evs att) (prop_key u) =
      Some (js_add (or_zero (stats att (prop_key u))) (Some (getSecondsDiff t0 t1)))"
    using mid(2) by (simp add: assms(2) replay_append)
  have second: "leaderboard_all (history (replay evs att)) =
              [(prop_key u, formatDuration (getSecondsDiff t0 t1))]"
    if le: "t0 \<le> t1" and len: "length mid \<le> 98"
      and others: "\<forall>e \<in> set (tl (history (replay evs att))).
             etype e = Some ''leave'' \<longrightarrow> find_join (history (replay evs att)) e = None"
  proof -
    let ?H = "history (replay evs att)"
    let ?L = "new_event t1 ?l" and ?J = "new_event t0 ?j"
    let ?M = "rev (map (\<lambda>(t, b). new_event t b) mid)"
    let ?N = "max 100 (length (history att))"
    have "?H = take ?N (?L # ?M @ ?J # history att)"
      unfolding assms(2) replay_history by simp
    moreover have "length ?M + 2 \<le> ?N"
      using len by simp
    ultimately have H: "?H = ?L # ?M @ ?J # take (?N - (length ?M + 2)) (history att)"
      by (simp only: take_past_two)
    have nojoin: "\<forall>x \<in> set ?M. \<not> (euser x = euser ?L \<and> etype x = Some ''join'' \<and> etime x \<le> etime ?L)"
      using assms(1) by (auto simp: new_event_def)
    have "etype ?L \<noteq> Some ''join''" "euser ?J = euser ?L" "etype ?J = Some ''join''"
      "etime ?J \<le> etime ?L"
      using le by (simp_all add: new_event_def)
    from find_join_first[OF this(1) nojoin this(2-4)]
    have "find_join ?H ?L = Some ?J"
      by (simp only: H)
    from vc_loop_first_leave[OF H _ this] assms(3)
    have "vc_loop ?H None ?H [] =
        vc_loop ?H None (tl ?H) [(prop_key u, Num (getSecondsDiff t0 t1))]"
      by (simp add: new_event_def)
    also have "\<dots> = [(prop_key u, Num (getSecondsDiff t0 t1))]"
      using others by (rule vc_loop_all_skip)
    finally show ?thesis
      by (simp add: leaderboard_all_def calculateVCStats_def leaderboard_single_total)
  qed
  from first second show ?thesis by (auto simp: or_zero_def)
qed

theorem session_credit_witness:
  "stats (replay [(1000::int, join_of ''Alice''), (2000, join_of ''Bob''), (62500, leave_of ''Alice'')]
     empty_attendance) ''Alice'' = Some (Num 61) \<and>
   leaderboard_all (history (replay [(1000::int, join_of ''Alice''), (2000, join_of ''Bob''),
     (62500, leave_of ''Alice'')] empty_attendance)) = [(''Alice'', ''00:01:01'')]"
proof -
  let ?evs = "[(1000::int, join_of ''Alice''), (2000, join_of ''Bob''), (62500, leave_of ''Alice'')]"
  have h: "\<forall>(t, b) \<in> set [(2000::int, join_of ''Bob'')]. prop_key (buser b) = prop_key (Some ''Alice'') \<longrightarrow>
      btype b \<noteq> Some ''join'' \<and> btype b \<noteq> Some ''leave''"
    by (simp add: join_of_def prop_key_def)
  have e: "?evs = (1000, \<lparr>btype = Some ''join'', buser = Some ''Alice'', bchannel = Some ''VC''\<rparr>) #
      [(2000::int, join_of ''Bob'')] @
      [(62500, \<lparr>btype = Some ''leave'', buser = Some ''Alice'', bchannel = Some ''VC''\<rparr>)]"
    by (simp add: join_of_def leave_of_def)
  have p: "prop_key (Some ''Alice'') \<notin> set object_prototype"
    by (simp add: prop_key_def object_prototype_def prototype_functions_def)
  have o: "(1000::int) \<le> 62500 \<and> length [(2000::int, join_of ''Bob'')] \<le> 98 \<and>
      (\<forall>e \<in> set (tl (history (replay ?evs empty_attendance))).
         etype e = Some ''leave'' \<longrightarrow> find_join (history (replay ?evs empty_attendance)) e = None)"
    by (simp add: voice_event_history join_of_def leave_of_def new_event_def empty_attendance_def)
  have s: "stats empty_attendance (prop_key (Some ''Alice'')) = None"
    by (simp add: empty_attendance_def)
  have f: "formatDuration 61 = ''00:01:01''" by code_simp
  from session_credit[OF h e p, of empty_attendance] o s
  have "stats (replay ?evs empty_attendance) (prop_key (Some ''Alice'')) =
      Some (Num (getSecondsDiff 1000 62500))"
    and "leaderboard_all (history (replay ?evs empty_attendance)) =
      [(prop_key (Some ''Alice''), formatDuration (getSecondsDiff 1000 62500))]"
    by blast+
  then show ?thesis
    by (simp add: prop_key_def getSecondsDiff_def f)
qed

text \<open>
  The claim as stated excludes interleaved joins only. A second leave of the user in
  between closes the session early: the join at 0 and the leave at 5000 then credit 1
  second, not 5. When the clock steps back between join and leave, the leaderboard finds
  no join at or before the leave and reports nothing for the user; and after 99 requests
  in between the join has left the history, with the same effect. For the user named
  \<^verbatim>\<open>constructor\<close> the total is a string, the text of the inherited function followed by
  the 5 seconds, and the leaderboard shows \<^verbatim>\<open>NaN:NaN:NaN\<close>.
\<close>

theorem session_credit_counterexample:
  "btype (leave_of ''Alice'') \<noteq> Some ''join'' \<and>
   stats (replay [(0::int, join_of ''Alice''), (1000, leave_of ''Alice''), (5000, leave_of ''Alice'')]
     empty_attendance) ''Alice'' = Some (Num 1) \<and>
   getSecondsDiff 0 5000 = 5 \<and>
   leaderboard_all (history (replay [(5000::int, join_of ''Alice''), (0, leave_of ''Alice'')]
     empty_attendance)) = [] \<and>
   leaderboard_all (history (replay ((0::int, join_of ''Alice'') #
     replicate 99 (1000, join_of ''Bob'') @ [(5000, leave_of ''Alice'')]) empty_attendance)) = [] \<and>
   stats (replay [(0::int, join_of ''constructor''), (5000, leave_of ''constructor'')]
     empty_attendance) ''constructor'' = Some (FunStr ''constructor'' ''5'') \<and>
   leaderboard_all (history (replay [(0::int, join_of ''constructor''),
     (5000, leave_of ''constructor'')] empty_attendance)) = [(''constructor'', ''NaN:NaN:NaN'')]"
proof -
  have a: "btype (leave_of ''Alice'') \<noteq> Some ''join'' \<and>
   stats (replay [(0::int, join_of ''Alice''), (1000, leave_of ''Alice''), (5000, leave_of ''Alice'')]
     empty_attendance) ''Alice'' = Some (Num 1) \<and>
   getSecondsDiff 0 5000 = 5 \<and>
   leaderboard_all (history (replay [(5000::int, join_of ''Alice''), (0, leave_of ''Alice'')]
     empty_attendance)) = []"
    by code_simp
  have c: "stats (replay [(0::int, join_of ''constructor''), (5000, leave_of ''constructor'')]
     empty_attendance) ''constructor'' = Some (FunStr ''constructor'' ''5'') \<and>
   leaderboard_all (history (replay [(0::int, join_of ''constructor''),
     (5000, leave_of ''constructor'')] empty_attendance)) = [(''constructor'', ''NaN:NaN:NaN'')]"
    by code_simp
  let ?H = "history (replay ((0::int, join_of ''Alice'') #
     replicate 99 (1000, join_of ''Bob'') @ [(5000, leave_of ''Alice'')]) empty_attendance)"
  have H: "?H = new_event 5000 (leave_of ''Alice'') # replicate 99 (new_event 1000 (join_of ''Bob''))"
    unfolding replay_history by (simp add: empty_attendance_def)
  have "\<forall>e \<in> set ?H. etype e = Some ''leave'' \<longrightarrow> find_join ?H e = None"
    unfolding H find_join_None by (simp add: new_event_def join_of_def leave_of_def)
  then have "vc_loop ?H None ?H [] = []"
    by (rule vc_loop_all_skip)
  then have "leaderboard_all ?H = []"
    by (simp add: leaderboard_all_def calculateVCStats_def format_rows_def rank_rows_def
        object_entries_def)
  with a c show ?thesis by simp
qed

text \<open>
  Claim C4. The events join of Alice at 00:00:00, leave of Alice at 00:05:00, join of Bob
  at 00:01:00 and leave of Bob at 00:02:00, processed in this order from the empty state:
  the all-time leaderboard is Alice with \<open>00:05:00\<close>, then Bob with \<open>00:01:00\<close>.
\<close>

theorem scenario_leaderboard:
  "leaderboard_all (history (replay scenario empty_attendance)) =
     [(''Alice'', ''00:05:00''), (''Bob'', ''00:01:00'')]"
  by code_simp

text \<open>
  A leave without session, for a user whose name is not a member of
  \<^verbatim>\<open>Object.prototype\<close> and in a state where \<open>active\<close> still has its first prototype:
  processing a leave of a user who has no active session leaves \<open>stats\<close> as it is, and
  the leave still becomes the first entry of the history. In a history, a leave for which
  no entry is a join of the same user at or before the time of the leave adds nothing to
  any total: the totals of \<^verbatim>\<open>calculateVCStats\<close>, and so the leaderboard, are those of
  the history without that leave, for every window predicate and without one.
\<close>

lemma unmatched_leave:
  "(btype b = Some ''leave'' \<and> active att (prop_key (buser b)) = None \<and>
    prop_key (buser b) \<notin> set object_prototype \<and> active_proto att = None \<longrightarrow>
      stats (snd (voice_event t b att)) = stats att \<and>
      history (snd (voice_event t b att)) =
        new_event t b #
          (if 100 \<le> length (history att) then butlast (history att) else history att) \<and>
      etype (new_event t b) = Some ''leave'') \<and>
   (etype h = Some ''leave'' \<and>
    (\<forall>j \<in> set (xs @ h # ys).
       \<not> (euser j = euser h \<and> etype j = Some ''join'' \<and> etime j \<le> etime h)) \<longrightarrow>
      vc_loop (xs @ h # ys) filterFn (xs @ h # ys) [] = vc_loop (xs @ ys) filterFn (xs @ ys) [] \<and>
      calculateVCStats (xs @ h # ys) filterFn = calculateVCStats (xs @ ys) filterFn)"
proof -
  have first: "stats (snd (voice_event t b att)) = stats att \<and>
      history (snd (voice_event t b att)) =
        new_event t b #
          (if 100 \<le> length (history att) then butlast (history att) else history att) \<and>
      etype (new_event t b) = Some ''leave''"
    if "btype b = Some ''leave''" "active att (prop_key (buser b)) = None"
      "prop_key (buser b) \<notin> set object_prototype" "active_proto att = None"
    using that by (simp add: voice_event_stats_plain voice_event_history new_event_def)
  have second: "vc_loop (xs @ h # ys) filterFn (xs @ h # ys) [] =
      vc_loop (xs @ ys) filterFn (xs @ ys) []"
    if l: "etype h = Some ''leave''"
      and n: "\<forall>j \<in> set (xs @ h # ys).
       \<not> (euser j = euser h \<and> etype j = Some ''join'' \<and> etime j \<le> etime h)"
  proof -
    from n have none: "find_join (xs @ h # ys) h = None"
      by (simp only: find_join_None)
    have "vc_loop (xs @ h # ys) filterFn (xs @ h # ys) [] =
          vc_loop (xs @ h # ys) filterFn (xs @ ys) []"
      using none by (simp add: vc_loop_skip)
    also have "\<dots> = vc_loop (xs @ ys) filterFn (xs @ ys) []"
      using l by (intro vc_loop_cong_find find_join_remove) simp
    finally show ?thesis .
  qed
  from first second show ?thesis
    by (simp add: calculateVCStats_def)
qed

text \<open>
  Claim C5, at the input where the code departs from it. A leave of the user named
  \<^verbatim>\<open>constructor\<close>, processed in the empty state, where the user has no session: the read
  of line 63 finds the inherited function \<^verbatim>\<open>Object\<close>, which is truthy; its
  \<^verbatim>\<open>joinedAt\<close> is undefined and the duration \<^verbatim>\<open>NaN\<close>; line 66 finds the same function
  in \<open>stats\<close> and does not reset, and line 67 stores the text of the function followed by
  \<^verbatim>\<open>NaN\<close>. So \<open>stats\<close> is altered.
\<close>

theorem inherited_leave_alters_stats:
  "btype (leave_of ''constructor'') = Some ''leave'' \<and>
   active empty_attendance (prop_key (buser (leave_of ''constructor''))) = None \<and>
   stats empty_attendance ''constructor'' = None \<and>
   stats (snd (voice_event 0 (leave_of ''constructor'') empty_attendance)) ''constructor'' =
     Some (FunStr ''constructor'' ''NaN'') \<and>
   to_text (FunStr ''constructor'' ''NaN'') = ''function Object() { [native code] }NaN''"
  by (simp add: leave_of_def prop_key_def empty_attendance_def voice_event_stats active_get_def
      prototype_functions_def add_assign_def num_text_def function_text_def)


text \<open>
  Claim C6, amended. The handler has no validation and no error reply. A request whose
  user is missing is answered with status 200 like every other; its event, with the user
  missing, becomes the first entry of the history; \<open>active\<close> and \<open>stats\<close> change as
  they do for the same request of the user named \<open>undefined\<close>, the property key a
  missing user is converted to.
\<close>

theorem missing_user_accepted:
  assumes "buser b = None"
  shows "fst (voice_event t b att) = 200 \<and>
         hd (history (snd (voice_event t b att))) = new_event t b \<and>
         euser (new_event t b) = None \<and>
         active (snd (voice_event t b att)) =
           active (snd (voice_event t (b\<lparr>buser := Some ''undefined''\<rparr>) att)) \<and>
         stats (snd (voice_event t b att)) =
           stats (snd (voice_event t (b\<lparr>buser := Some ''undefined''\<rparr>) att))"
  using assms
  by (simp add: voice_event_status voice_event_history voice_event_active voice_event_stats
      new_event_def prop_key_def split: option.splits)

theorem missing_user_accepted_witness:
  "buser \<lparr>btype = Some ''leave'', buser = None, bchannel = Some ''VC''\<rparr> = None \<and>
   fst (voice_event 3000 \<lparr>btype = Some ''leave'', buser = None, bchannel = Some ''VC''\<rparr>
     (snd (voice_event 0 (join_of ''undefined'') empty_attendance))) = 200 \<and>
   stats (snd (voice_event 3000 \<lparr>btype = Some ''leave'', buser = None, bchannel = Some ''VC''\<rparr>
     (snd (voice_event 0 (join_of ''undefined'') empty_attendance)))) ''undefined'' = Some (Num 3)"
proof -
  have h: "buser \<lparr>btype = Some ''leave'', buser = None, bchannel = Some ''VC''\<rparr> = None"
    by simp
  from missing_user_accepted[OF h, of 3000 "snd (voice_event 0 (join_of ''undefined'') empty_attendance)"]
  show ?thesis
    by (simp add: join_of_def voice_event_stats voice_event_active prop_key_def active_get_def
        add_assign_def prototype_functions_def empty_attendance_def or_zero_def getSecondsDiff_def)
qed

text \<open>
  A join without user, sent to the empty state: the reply is 200, the history and
  \<open>active\<close> are no longer empty.
\<close>

theorem missing_user_counterexample:
  "fst (voice_event 0 \<lparr>btype = Some ''join'', buser = None, bchannel = Some ''VC''\<rparr>
     empty_attendance) = 200 \<and>
   history (snd (voice_event 0 \<lparr>btype = Some ''join'', buser = None, bchannel = Some ''VC''\<rparr>
     empty_attendance)) =
     [\<lparr>etype = Some ''join'', euser = None, echannel = Some ''VC'', etime = 0\<rparr>] \<and>
   active (snd (voice_event 0 \<lparr>btype = Some ''join'', buser = None, bchannel = Some ''VC''\<rparr>
     empty_attendance)) ''undefined'' = Some \<lparr>channel = Some ''VC'', joinedAt = 0\<rparr> \<and>
   history empty_attendance = [] \<and> active empty_attendance ''undefined'' = None"
  by (simp add: voice_event_status voice_event_history voice_event_active new_event_def
      prop_key_def empty_attendance_def)


text \<open>
  Claim C7, amended. For every window parameter and every history the export has the
  column headers \<open>User\<close> and \<open>VC Time\<close> and one row per user, in the order
  \<^verbatim>\<open>Object.entries\<close> lists the totals: it does not rank them. Ranked, the rows are the
  all-time leaderboard of the window-filtered history. For a parameter other than
  \<open>daily\<close> and \<open>weekly\<close> the filtered history is the history, so the export has the
  rows of the leaderboard query of all time: the same users with the same formatted
  durations, permuted.
\<close>

theorem export_rows_unranked:
  "headers (export_xlsx today weekStart type hist) = [''User'', ''VC Time''] \<and>
   rows (export_xlsx today weekStart type hist) =
     format_rows (export_loop (filteredHistory today weekStart type hist)
       (filteredHistory today weekStart type hist) []) \<and>
   distinct (map fst (rows (export_xlsx today weekStart type hist))) \<and>
   rank_rows (rows (export_xlsx today weekStart type hist)) =
     leaderboard_all (filteredHistory today weekStart type hist) \<and>
   (type \<noteq> ''daily'' \<and> type \<noteq> ''weekly'' \<longrightarrow>
      rank_rows (rows (export_xlsx today weekStart type hist)) = leaderboard_all hist \<and>
      mset (rows (export_xlsx today weekStart type hist)) = mset (leaderboard_all hist))"
proof -
  let ?f = "filteredHistory today weekStart type hist"
  have h: "headers (export_xlsx today weekStart type hist) = [''User'', ''VC Time'']"
    by (simp add: export_xlsx_def Let_def)
  have d: "distinct (map fst (rows (export_xlsx today weekStart type hist)))"
    by (simp add: export_rows_format format_rows_keys object_entries_distinct vc_loop_distinct)
  have r: "rank_rows (rows (export_xlsx today weekStart type hist)) = leaderboard_all ?f"
    by (simp add: export_rows_format leaderboard_all_def calculateVCStats_def)
  have a: "rank_rows (rows (export_xlsx today weekStart type hist)) = leaderboard_all hist \<and>
      mset (rows (export_xlsx today weekStart type hist)) = mset (leaderboard_all hist)"
    if "type \<noteq> ''daily''" "type \<noteq> ''weekly''"
  proof -
    from that have "?f = hist" by (simp add: filteredHistory_def)
    with r have e: "rank_rows (rows (export_xlsx today weekStart type hist)) = leaderboard_all hist"
      by simp
    have "mset (rank_rows (rows (export_xlsx today weekStart type hist))) =
          mset (rows (export_xlsx today weekStart type hist))"
      by (simp add: rank_rows_def array_sort_mset)
    with e show ?thesis by simp
  qed
  have o: "rows (export_xlsx today weekStart type hist) =
     format_rows (export_loop (filteredHistory today weekStart type hist)
       (filteredHistory today weekStart type hist) [])"
    by (simp add: export_xlsx_def Let_def format_rows_def)
  from h o d r a show ?thesis by blast
qed

theorem export_rows_unranked_witness:
  "rank_rows [(''Bob'', ''00:01:00''), (''Alice'', ''00:05:00'')] =
     leaderboard_all (history (replay scenario empty_attendance)) \<and>
   rows (export_xlsx 0 0 ''all'' (history (replay scenario empty_attendance))) =
     [(''Bob'', ''00:01:00''), (''Alice'', ''00:05:00'')]"
proof -
  have t: "''all'' \<noteq> ''daily'' \<and> ''all'' \<noteq> ''weekly''" by simp
  have e: "rows (export_xlsx 0 0 ''all'' (history (replay scenario empty_attendance))) =
     [(''Bob'', ''00:01:00''), (''Alice'', ''00:05:00'')]"
    by code_simp
  from export_rows_unranked[of 0 0 "''all''" "history (replay scenario empty_attendance)"] t
  have "rank_rows (rows (export_xlsx 0 0 ''all'' (history (replay scenario empty_attendance)))) =
     leaderboard_all (history (replay scenario empty_attendance))"
    by blast
  with e show ?thesis by simp
qed

text \<open>
  On the history of the example scenario the export lists Bob before Alice and the
  leaderboard Alice before Bob. With a daily window that starts at 1000, a session from 0
  to 2000 is on the daily leaderboard and not in the daily export.
\<close>

theorem export_ranking_counterexample:
  "rows (export_xlsx 0 0 ''all'' (history (replay scenario empty_attendance))) =
     [(''Bob'', ''00:01:00''), (''Alice'', ''00:05:00'')] \<and>
   leaderboard_all (history (replay scenario empty_attendance)) =
     [(''Alice'', ''00:05:00''), (''Bob'', ''00:01:00'')] \<and>
   rows (export_xlsx 1000 0 ''daily'' [leave_at (Some ''Alice'') 2000, join_at (Some ''Alice'') 0]) = [] \<and>
   leaderboard_daily 1000 [leave_at (Some ''Alice'') 2000, join_at (Some ''Alice'') 0] =
     [(''Alice'', ''00:00:02'')]"
  by code_simp


text \<open>
  Claim C8. For a total of seconds that is not negative, \<open>formatDuration\<close> renders the
  hours, the minutes modulo 60 and the seconds modulo 60, in this order and separated by
  colons. Every field consists of decimal digits that denote the number, and has at least
  two of them; minutes and seconds have exactly two, the hours are not capped (three or
  more digits from 100 hours on). In particular \<open>formatDuration 3661 = "01:01:01"\<close>,
  \<open>formatDuration 59 = "00:00:59"\<close> and \<open>formatDuration 0 = "00:00:00"\<close>. Every
  number the two callers, \<^verbatim>\<open>calculateVCStats\<close> and the export, pass is a total that
  is not negative; what they pass besides is the string total of an inherited key.
\<close>

theorem formatDuration_fields:
  assumes "0 \<le> sec"
  shows "formatDuration sec =
           two_digits (sec div 3600) @ '':'' @ two_digits (sec div 60 mod 60) @ '':'' @
           two_digits (sec mod 60) \<and>
         (\<forall>x \<in> {sec div 3600, sec div 60 mod 60, sec mod 60}.
            list_all is_digit (two_digits x) \<and> dec_value (two_digits x) = x \<and>
            2 \<le> length (two_digits x)) \<and>
         length (two_digits (sec div 60 mod 60)) = 2 \<and>
         length (two_digits (sec mod 60)) = 2 \<and>
         (100 \<le> sec div 3600 \<longrightarrow> 3 \<le> length (two_digits (sec div 3600))) \<and>
         formatDuration 3661 = ''01:01:01'' \<and>
         formatDuration 59 = ''00:00:59'' \<and>
         formatDuration 0 = ''00:00:00'' \<and>
         (\<forall>(k, v) \<in> set (vc_loop hist filterFn hist []). total_ok k v) \<and>
         (\<forall>(k, v) \<in> set (export_loop hist hist []). total_ok k v)"
proof -
  have h: "0 \<le> sec div 3600" and m: "0 \<le> sec div 60 mod 60" "sec div 60 mod 60 < 100"
    and s: "0 \<le> sec mod 60" "sec mod 60 < 100"
    using assms by (simp_all add: pos_imp_zdiv_nonneg_iff)
  have fields: "list_all is_digit (two_digits x) \<and> dec_value (two_digits x) = x \<and>
      2 \<le> length (two_digits x)" if "0 \<le> x" for x
    using that by (simp add: two_digits_digits two_digits_value two_digits_length)
  have e1: "formatDuration 3661 = ''01:01:01''" by code_simp
  have e2: "formatDuration 59 = ''00:00:59''" by code_simp
  have e3: "formatDuration 0 = ''00:00:00''" by code_simp
  have all: "\<forall>x \<in> {sec div 3600, sec div 60 mod 60, sec mod 60}.
            list_all is_digit (two_digits x) \<and> dec_value (two_digits x) = x \<and>
            2 \<le> length (two_digits x)"
    using fields[OF h] fields[OF m(1)] fields[OF s(1)] by blast
  have unc: "100 \<le> sec div 3600 \<longrightarrow> 3 \<le> length (two_digits (sec div 3600))"
    by (simp add: two_digits_uncapped)
  note tot = totals_ok[of hist filterFn]
  show ?thesis
    by (intro conjI; (fact formatDuration_nonneg[OF assms] all two_digits_length_two[OF m]
      two_digits_length_two[OF s] unc e1 e2 e3 tot[THEN conjunct1] tot[THEN conjunct2]))
qed

theorem formatDuration_fields_witness:
  "(0::int) \<le> 360000 \<and> formatDuration 360000 = ''100:00:00'' \<and>
   dec_value ''100'' = 360000 div 3600"
proof -
  have h: "(0::int) \<le> 360000" by simp
  have f1: "two_digits 100 = ''100''" by code_simp
  have f2: "two_digits 0 = ''00''" by code_simp
  note f = f1 f2
  from formatDuration_fields[OF h] have "formatDuration 360000 = ''100:00:00''"
    and "dec_value (two_digits (360000 div 3600)) = 360000 div 3600"
    by (simp_all add: f)
  with h show ?thesis by (simp add: f)
qed

text \<open>
  Claim C9, amended. For a user whose name is not a member of \<^verbatim>\<open>Object.prototype\<close>, in
  a state where \<open>active\<close> still has its first prototype, one processed event changes
  \<open>stats\<close> at most at the user of the event, and only when the event is a leave and the
  user holds an active session; a total that is a number (0 when missing) then grows by
  \<open>getSecondsDiff\<close> from the start of the session to the instant of processing, which is
  negative exactly when the session started after that instant. Hence, along any
  sequence of events of such users processed from the empty state with instants that
  never step back, the total of every user is a number and never decreases.
\<close>

theorem stats_growth:
  "(prop_key (buser b) \<notin> set object_prototype \<and> active_proto att = None \<longrightarrow>
      (\<forall>k. stats (snd (voice_event t b att)) k \<noteq> stats att k \<longrightarrow>
         k = prop_key (buser b) \<and> btype b = Some ''leave'' \<and> active att k \<noteq> None) \<and>
      (\<forall>sess. btype b = Some ''leave'' \<and> active att (prop_key (buser b)) = Some sess \<longrightarrow>
         (\<forall>m. stat_number (stats att (prop_key (buser b))) = Some m \<longrightarrow>
            stat_number (stats (snd (voice_event t b att)) (prop_key (buser b))) =
              Some (m + getSecondsDiff (joinedAt sess) t)) \<and>
         (0 \<le> getSecondsDiff (joinedAt sess) t) = (joinedAt sess \<le> t))) \<and>
   (sorted (map fst (xs @ ys)) \<and>
    (\<forall>(t, b) \<in> set (xs @ ys). prop_key (buser b) \<notin> set object_prototype) \<longrightarrow>
      (\<exists>m n. stat_number (stats (replay xs empty_attendance) k) = Some m \<and>
         stat_number (stats (replay (xs @ ys) empty_attendance) k) = Some n \<and> m \<le> n))"
proof -
  have step: "(\<forall>k. stats (snd (voice_event t b att)) k \<noteq> stats att k \<longrightarrow>
         k = prop_key (buser b) \<and> btype b = Some ''leave'' \<and> active att k \<noteq> None) \<and>
      (\<forall>sess. btype b = Some ''leave'' \<and> active att (prop_key (buser b)) = Some sess \<longrightarrow>
         (\<forall>m. stat_number (stats att (prop_key (buser b))) = Some m \<longrightarrow>
            stat_number (stats (snd (voice_event t b att)) (prop_key (buser b))) =
              Some (m + getSecondsDiff (joinedAt sess) t)) \<and>
         (0 \<le> getSecondsDiff (joinedAt sess) t) = (joinedAt sess \<le> t))"
    if plain: "prop_key (buser b) \<notin> set object_prototype" "active_proto att = None"
  proof -
    have only: "\<forall>k. stats (snd (voice_event t b att)) k \<noteq> stats att k \<longrightarrow>
         k = prop_key (buser b) \<and> btype b = Some ''leave'' \<and> active att k \<noteq> None"
      by (auto simp: voice_event_stats_plain[OF plain] split: if_splits option.splits)
    have amount: "stat_number (stats (snd (voice_event t b att)) (prop_key (buser b))) =
              Some (m + getSecondsDiff (joinedAt sess) t)"
      if "btype b = Some ''leave''" "active att (prop_key (buser b)) = Some sess"
        "stat_number (stats att (prop_key (buser b))) = Some m" for sess m
      using that stat_number_credit[OF that(3)]
      by (simp add: voice_event_stats_plain[OF plain])
    have sign: "(0 \<le> getSecondsDiff s0 t) = (s0 \<le> t)" for s0
      by (simp add: getSecondsDiff_def pos_imp_zdiv_nonneg_iff)
    from only amount sign show ?thesis by blast
  qed
  have mono: "\<exists>m n. stat_number (stats (replay xs empty_attendance) k) = Some m \<and>
         stat_number (stats (replay (xs @ ys) empty_attendance) k) = Some n \<and> m \<le> n"
    if srt: "sorted (map fst (xs @ ys))"
      and keys: "\<forall>(t, b) \<in> set (xs @ ys). prop_key (buser b) \<notin> set object_prototype"
  proof -
    have xs: "sorted (map fst xs)" and ys: "sorted (map fst ys)"
      and before: "\<forall>t \<in> set (map fst xs). \<forall>t' \<in> set (map fst ys). t \<le> t'"
      using srt by (auto simp: sorted_append)
    have kx: "\<forall>(t, b) \<in> set xs. prop_key (buser b) \<notin> set object_prototype"
      and ky: "\<forall>(t, b) \<in> set ys. prop_key (buser b) \<notin> set object_prototype"
      using keys by auto
    have e0: "\<forall>k sess. active empty_attendance k = Some sess \<longrightarrow>
        (\<forall>t \<in> set (map fst xs). joinedAt sess \<le> t)"
      and p0: "active_proto empty_attendance = None"
      and n0: "stat_number (stats empty_attendance k) = Some 0"
      by (simp_all add: empty_attendance_def stat_number_def)
    from replay_stats_grow[OF xs e0 kx p0 n0]
    obtain m where m: "stat_number (stats (replay xs empty_attendance) k) = Some m" by blast
    have sess: "\<forall>k sess. active (replay xs empty_attendance) k = Some sess \<longrightarrow>
            (\<forall>t \<in> set (map fst ys). joinedAt sess \<le> t)"
    proof (intro allI impI)
      fix k sess
      assume "active (replay xs empty_attendance) k = Some sess"
      from replay_sessions_origin[OF this] have "joinedAt sess \<in> set (map fst xs)"
        by (simp add: empty_attendance_def)
      with before show "\<forall>t \<in> set (map fst ys). joinedAt sess \<le> t" by blast
    qed
    from replay_stats_grow[OF ys sess ky replay_proto_plain[OF kx p0] m] m
    show ?thesis by (simp add: replay_append)
  qed
  from step mono show ?thesis by blast
qed

theorem stats_growth_witness:
  "sorted (map fst ([(0::int, join_of ''Alice''), (10000, leave_of ''Alice'')] @
      [(20000, join_of ''Alice''), (25000, leave_of ''Alice'')])) \<and>
   stat_number (stats (replay [(0::int, join_of ''Alice''), (10000, leave_of ''Alice'')]
      empty_attendance) ''Alice'') = Some 10 \<and>
   (\<exists>n. stat_number (stats (replay ([(0::int, join_of ''Alice''), (10000, leave_of ''Alice'')] @
      [(20000, join_of ''Alice''), (25000, leave_of ''Alice'')]) empty_attendance) ''Alice'') =
      Some n \<and> 10 \<le> n)"
proof -
  let ?xs = "[(0::int, join_of ''Alice''), (10000, leave_of ''Alice'')]"
  let ?ys = "[(20000::int, join_of ''Alice''), (25000, leave_of ''Alice'')]"
  have h: "sorted (map fst (?xs @ ?ys))"
    by simp
  have p: "\<forall>(t, b) \<in> set (?xs @ ?ys). prop_key (buser b) \<notin> set object_prototype"
    by (simp add: join_of_def leave_of_def prop_key_def object_prototype_def
        prototype_functions_def)
  have v: "stat_number (stats (replay ?xs empty_attendance) ''Alice'') = Some 10"
    by code_simp
  from stats_growth[of "join_of ''Alice''" empty_attendance 0 ?xs ?ys "''Alice''"] h p
  obtain m n where "stat_number (stats (replay ?xs empty_attendance) ''Alice'') = Some m"
    "stat_number (stats (replay (?xs @ ?ys) empty_attendance) ''Alice'') = Some n" "m \<le> n"
    by blast
  with h v show ?thesis by auto
qed

text \<open>
  Without the condition on the clock the total can decrease: the handler adds the
  difference as it is. A session that starts at 20000 and is left at the instant 15000
  takes the user's total from 10 down to 5. Without the condition on the name, a leave of
  the user named \<^verbatim>\<open>constructor\<close>, who holds no session, changes \<open>stats\<close>; and after
  a join of the user named \<^verbatim>\<open>__proto__\<close> has replaced the prototype of \<open>active\<close>, so
  does a leave of the user named \<^verbatim>\<open>joinedAt\<close>, who holds no session either.
\<close>

theorem stats_growth_counterexample:
  "stats (replay [(0::int, join_of ''Alice''), (10000, leave_of ''Alice''), (20000, join_of ''Alice'')]
      empty_attendance) ''Alice'' = Some (Num 10) \<and>
   stats (replay [(0::int, join_of ''Alice''), (10000, leave_of ''Alice''), (20000, join_of ''Alice''),
      (15000, leave_of ''Alice'')] empty_attendance) ''Alice'' = Some (Num 5) \<and>
   active empty_attendance ''constructor'' = None \<and>
   stats empty_attendance ''constructor'' = None \<and>
   stats (replay [(0::int, leave_of ''constructor'')] empty_attendance) ''constructor'' =
     Some (FunStr ''constructor'' ''NaN'') \<and>
   active (replay [(0::int, join_of ''__proto__'')] empty_attendance) ''joinedAt'' = None \<and>
   stats (replay [(0::int, join_of ''__proto__''), (1000, leave_of ''joinedAt'')]
      empty_attendance) ''joinedAt'' = Some NaN"
  by code_simp

text \<open>
  Claim C10. With a window predicate, \<^verbatim>\<open>calculateVCStats\<close> computes the totals of the
  loop without predicate over the entries that satisfy it, while every join is still
  searched in the whole history: so do the daily and the weekly leaderboard with the
  start of their window. The export of a window filters the history first, then runs the
  loop over the filtered history and searches the join there. So for a session that
  starts before the start of the window and ends at or after it, the daily and the weekly
  leaderboard credit the whole duration from join to leave, and the export of the same
  window has no row; for a session inside the window both report the same row. The
  sessions are those of a user whose name is not a member of \<^verbatim>\<open>Object.prototype\<close>.
\<close>

theorem window_join_lookup:
  "vc_loop hist (Some p) hist [] = vc_loop hist None (filter p hist) [] \<and>
   export_loop (filter p hist) (filter p hist) [] =
     vc_loop (filter p hist) None (filter p hist) [] \<and>
   leaderboard_daily start hist =
     rank_rows (format_rows (vc_loop hist None (filter (\<lambda>h. start \<le> etime h) hist) [])) \<and>
   leaderboard_weekly start hist =
     rank_rows (format_rows (vc_loop hist None (filter (\<lambda>h. start \<le> etime h) hist) [])) \<and>
   filteredHistory start weekStart ''daily'' hist = filter (\<lambda>h. start \<le> etime h) hist \<and>
   filteredHistory today start ''weekly'' hist = filter (\<lambda>h. start \<le> etime h) hist \<and>
   rows (export_xlsx today weekStart type hist) =
     format_rows (export_loop (filteredHistory today weekStart type hist)
       (filteredHistory today weekStart type hist) []) \<and>
   rows (export_xlsx start weekStart ''daily'' hist) =
     format_rows (vc_loop (filter (\<lambda>h. start \<le> etime h) hist) None
       (filter (\<lambda>h. start \<le> etime h) hist) []) \<and>
   rows (export_xlsx today start ''weekly'' hist) =
     format_rows (vc_loop (filter (\<lambda>h. start \<le> etime h) hist) None
       (filter (\<lambda>h. start \<le> etime h) hist) []) \<and>
   (t0 < start \<and> start \<le> t1 \<and> prop_key u \<notin> set object_prototype \<longrightarrow>
      leaderboard_daily start [leave_at u t1, join_at u t0] =
        [(prop_key u, formatDuration (getSecondsDiff t0 t1))] \<and>
      leaderboard_weekly start [leave_at u t1, join_at u t0] =
        [(prop_key u, formatDuration (getSecondsDiff t0 t1))] \<and>
      rows (export_xlsx start weekStart ''daily'' [leave_at u t1, join_at u t0]) = [] \<and>
      rows (export_xlsx today start ''weekly'' [leave_at u t1, join_at u t0]) = []) \<and>
   (start \<le> t0 \<and> t0 \<le> t1 \<and> w \<noteq> u \<and> prop_key u \<notin> set object_prototype \<longrightarrow>
      leaderboard_daily start [leave_at u t1, join_at w t2, join_at u t0] =
        [(prop_key u, formatDuration (getSecondsDiff t0 t1))] \<and>
      rows (export_xlsx start weekStart ''daily'' [leave_at u t1, join_at w t2, join_at u t0]) =
        [(prop_key u, formatDuration (getSecondsDiff t0 t1))] \<and>
      rows (export_xlsx today start ''weekly'' [leave_at u t1, join_at w t2, join_at u t0]) =
        [(prop_key u, formatDuration (getSecondsDiff t0 t1))])"
proof -
  have fd: "filteredHistory start weekStart ''daily'' hist = filter (\<lambda>h. start \<le> etime h) hist"
    and fw: "filteredHistory today start ''weekly'' hist = filter (\<lambda>h. start \<le> etime h) hist"
    by (simp_all add: filteredHistory_def)
  have ld: "leaderboard_daily start hist =
     rank_rows (format_rows (vc_loop hist None (filter (\<lambda>h. start \<le> etime h) hist) []))"
    and lw: "leaderboard_weekly start hist =
     rank_rows (format_rows (vc_loop hist None (filter (\<lambda>h. start \<le> etime h) hist) []))"
    by (simp_all add: leaderboard_daily_def leaderboard_weekly_def calculateVCStats_def
        vc_loop_filter)
  have ex: "rows (export_xlsx today weekStart type hist) =
     format_rows (export_loop (filteredHistory today weekStart type hist)
       (filteredHistory today weekStart type hist) [])"
    by (simp add: export_xlsx_def Let_def format_rows_def)
  have ed: "rows (export_xlsx start weekStart ''daily'' hist) =
     format_rows (vc_loop (filter (\<lambda>h. start \<le> etime h) hist) None
       (filter (\<lambda>h. start \<le> etime h) hist) [])"
    and ew: "rows (export_xlsx today start ''weekly'' hist) =
     format_rows (vc_loop (filter (\<lambda>h. start \<le> etime h) hist) None
       (filter (\<lambda>h. start \<le> etime h) hist) [])"
    by (simp_all add: export_rows_format filteredHistory_def)
  have before: "leaderboard_daily start [leave_at u t1, join_at u t0] =
        [(prop_key u, formatDuration (getSecondsDiff t0 t1))] \<and>
      leaderboard_weekly start [leave_at u t1, join_at u t0] =
        [(prop_key u, formatDuration (getSecondsDiff t0 t1))] \<and>
      rows (export_xlsx start weekStart ''daily'' [leave_at u t1, join_at u t0]) = [] \<and>
      rows (export_xlsx today start ''weekly'' [leave_at u t1, join_at u t0]) = []"
    if "t0 < start" "start \<le> t1" "prop_key u \<notin> set object_prototype"
    using that
    by (simp add: leaderboard_daily_def leaderboard_weekly_def calculateVCStats_def
        export_xlsx_def filteredHistory_def find_join_def stats_add_first
        leaderboard_single_total leave_at_def join_at_def object_entries_nil)
  have inside: "leaderboard_daily start [leave_at u t1, join_at w t2, join_at u t0] =
        [(prop_key u, formatDuration (getSecondsDiff t0 t1))] \<and>
      rows (export_xlsx start weekStart ''daily'' [leave_at u t1, join_at w t2, join_at u t0]) =
        [(prop_key u, formatDuration (getSecondsDiff t0 t1))] \<and>
      rows (export_xlsx today start ''weekly'' [leave_at u t1, join_at w t2, join_at u t0]) =
        [(prop_key u, formatDuration (getSecondsDiff t0 t1))]"
    if "start \<le> t0" "t0 \<le> t1" "w \<noteq> u" "prop_key u \<notin> set object_prototype"
    using that
    by (simp add: leaderboard_daily_def calculateVCStats_def
        export_xlsx_def filteredHistory_def find_join_def stats_add_first
        leaderboard_single_total leave_at_def join_at_def
        object_entries_single formatDuration_of_def)
  have g1: "vc_loop hist (Some p) hist [] = vc_loop hist None (filter p hist) []"
    by (rule vc_loop_filter)
  have g2: "export_loop (filter p hist) (filter p hist) [] =
     vc_loop (filter p hist) None (filter p hist) []"
    by (rule export_loop_vc_loop)
  from before have b': "t0 < start \<and> start \<le> t1 \<and> prop_key u \<notin> set object_prototype \<longrightarrow>
      leaderboard_daily start [leave_at u t1, join_at u t0] =
        [(prop_key u, formatDuration (getSecondsDiff t0 t1))] \<and>
      leaderboard_weekly start [leave_at u t1, join_at u t0] =
        [(prop_key u, formatDuration (getSecondsDiff t0 t1))] \<and>
      rows (export_xlsx start weekStart ''daily'' [leave_at u t1, join_at u t0]) = [] \<and>
      rows (export_xlsx today start ''weekly'' [leave_at u t1, join_at u t0]) = []"
    by blast
  from inside have i': "start \<le> t0 \<and> t0 \<le> t1 \<and> w \<noteq> u \<and> prop_key u \<notin> set object_prototype \<longrightarrow>
      leaderboard_daily start [leave_at u t1, join_at w t2, join_at u t0] =
        [(prop_key u, formatDuration (getSecondsDiff t0 t1))] \<and>
      rows (export_xlsx start weekStart ''daily'' [leave_at u t1, join_at w t2, join_at u t0]) =
        [(prop_key u, formatDuration (getSecondsDiff t0 t1))] \<and>
      rows (export_xlsx today start ''weekly'' [leave_at u t1, join_at w t2, join_at u t0]) =
        [(prop_key u, formatDuration (getSecondsDiff t0 t1))]"
    by blast
  show ?thesis
    by (intro conjI) (fact g1 g2 ld lw fd fw ex ed ew b' i')+
qed

theorem window_join_lookup_witness:
  "leaderboard_daily 86400000 [leave_at (Some ''Alice'') 86460000, join_at (Some ''Alice'') 86340000] =
     [(''Alice'', ''00:02:00'')] \<and>
   rows (export_xlsx 86400000 0 ''daily''
     [leave_at (Some ''Alice'') 86460000, join_at (Some ''Alice'') 86340000]) = [] \<and>
   rows (export_xlsx 86400000 0 ''daily''
     [leave_at (Some ''Alice'') 86520000, join_at (Some ''Bob'') 86460000,
      join_at (Some ''Alice'') 86400000]) = [(''Alice'', ''00:02:00'')]"
proof -
  have h: "(86340000::int) < 86400000 \<and> (86400000::int) \<le> 86460000 \<and>
      prop_key (Some ''Alice'') \<notin> set object_prototype"
    by (simp add: prop_key_def object_prototype_def prototype_functions_def)
  have i: "(86400000::int) \<le> 86400000 \<and> (86400000::int) \<le> 86520000 \<and>
      Some ''Bob'' \<noteq> Some ''Alice''"
    by simp
  have f: "formatDuration (getSecondsDiff 86340000 86460000) = ''00:02:00''"
    "formatDuration (getSecondsDiff 86400000 86520000) = ''00:02:00''" by code_simp+
  from window_join_lookup[of _ _ 86400000 0 _ _ 86340000 86460000 "Some ''Alice''"] h
  have a: "leaderboard_daily 86400000 [leave_at (Some ''Alice'') 86460000,
      join_at (Some ''Alice'') 86340000] =
     [(prop_key (Some ''Alice''), formatDuration (getSecondsDiff 86340000 86460000))]"
    "rows (export_xlsx 86400000 0 ''daily''
     [leave_at (Some ''Alice'') 86460000, join_at (Some ''Alice'') 86340000]) = []"
    by blast+
  from window_join_lookup[of _ _ 86400000 0 _ _ 86400000 86520000 "Some ''Alice''"
      "Some ''Bob''" 86460000] h i
  have b: "rows (export_xlsx 86400000 0 ''daily''
     [leave_at (Some ''Alice'') 86520000, join_at (Some ''Bob'') 86460000,
      join_at (Some ''Alice'') 86400000]) =
     [(prop_key (Some ''Alice''), formatDuration (getSecondsDiff 86400000 86520000))]"
    by blast
  from a b show ?thesis by (simp add: f prop_key_def)
qed

end
